theory Spec2Isabelle
  imports Main "HOL-Library.Word"
begin

section \<open>JavaScript strings\<close>

text \<open>
  A JavaScript string is a sequence of 16-bit UTF-16 code units. String literals of the
  source are written \<open>asc ''...''\<close>: the ASCII characters as code units.
\<close>

type_synonym jsstring = "16 word list"

definition asc :: "string \<Rightarrow> jsstring" where
  "asc s = map of_char s"

text \<open>
  A template literal \<open>`${x}`\<close> and \<open>+\<close> on strings convert \<open>null\<close> to the
  four characters \<open>null\<close>.
\<close>

definition tpl :: "jsstring option \<Rightarrow> jsstring" where
  "tpl x = (case x of None \<Rightarrow> asc ''null'' | Some s \<Rightarrow> s)"

text \<open>Truthiness of a \<open>string | null | undefined\<close>: the empty string is falsy.\<close>

definition truthy :: "jsstring option \<Rightarrow> bool" where
  "truthy x = (case x of None \<Rightarrow> False | Some s \<Rightarrow> s \<noteq> [])"

section \<open>The string functions of the platform\<close>

text \<open>
  \<open>encode\<close> and \<open>decode\<close> of the page are compositions of six functions of the
  JavaScript platform: \<open>encodeURIComponent\<close>, \<open>decodeURIComponent\<close>, \<open>escape\<close>,
  \<open>unescape\<close> (ECMAScript) and \<open>btoa\<close>, \<open>atob\<close> (HTML). They are modelled after their
  specifications; an exception is a value \<open>Inl\<close> of the result.
\<close>

datatype js_error = URIError | InvalidCharacterError

text \<open>The code unit with a given numeric value.\<close>

definition codeUnit :: "nat \<Rightarrow> 16 word" where
  "codeUnit n = of_nat n"

text \<open>Appending to the result string, unless an exception is already under way.\<close>

definition prepend :: "jsstring \<Rightarrow> js_error + jsstring \<Rightarrow> js_error + jsstring" where
  "prepend xs r = (case r of Inl e \<Rightarrow> Inl e | Inr ys \<Rightarrow> Inr (xs @ ys))"

subsection \<open>Character classes and hexadecimal digits\<close>

text \<open>
  \<open>uriUnescaped\<close> is the set \<open>encodeURIComponent\<close> leaves alone (letters, digits and
  \<open>_ - . ! ~ * ' ( )\<close>); \<open>escapeUnescaped\<close> is the set \<open>escape\<close> leaves alone (letters,
  digits and \<open>_ @ * + - . /\<close>). Escapes are written with upper-case digits and read with
  digits of either case.
\<close>

definition isAlnum :: "nat \<Rightarrow> bool" where
  "isAlnum n = ((48 \<le> n \<and> n \<le> 57) \<or> (65 \<le> n \<and> n \<le> 90) \<or> (97 \<le> n \<and> n \<le> 122))"

definition uriUnescaped :: "nat \<Rightarrow> bool" where
  "uriUnescaped n = (isAlnum n \<or> n \<in> set [95, 45, 46, 33, 126, 42, 39, 40, 41])"

definition escapeUnescaped :: "nat \<Rightarrow> bool" where
  "escapeUnescaped n = (isAlnum n \<or> n \<in> set [95, 64, 42, 43, 45, 46, 47])"

definition hexDigit :: "nat \<Rightarrow> 16 word" where
  "hexDigit d = (if d < 10 then codeUnit (48 + d) else codeUnit (55 + d))"

definition hexValue :: "16 word \<Rightarrow> nat option" where
  "hexValue c =
     (let n = unat c in
      if 48 \<le> n \<and> n \<le> 57 then Some (n - 48)
      else if 65 \<le> n \<and> n \<le> 70 then Some (n - 55)
      else if 97 \<le> n \<and> n \<le> 102 then Some (n - 87)
      else None)"

definition percentEncode :: "nat \<Rightarrow> jsstring" where
  "percentEncode b = [0x25, hexDigit (b div 16), hexDigit (b mod 16)]"

fun hexOctet :: "jsstring \<Rightarrow> nat option" where
  "hexOctet (h # l # rest) =
     (case hexValue h of None \<Rightarrow> None
      | Some a \<Rightarrow> (case hexValue l of None \<Rightarrow> None | Some b \<Rightarrow> Some (16 * a + b)))"
| "hexOctet _ = None"

fun hexQuad :: "jsstring \<Rightarrow> nat option" where
  "hexQuad (a # b # rest) =
     (case hexOctet [a, b] of None \<Rightarrow> None
      | Some hi \<Rightarrow> (case hexOctet rest of None \<Rightarrow> None | Some lo \<Rightarrow> Some (256 * hi + lo)))"
| "hexQuad _ = None"

subsection \<open>UTF-16 and UTF-8\<close>

definition isLeadSurrogate :: "nat \<Rightarrow> bool" where
  "isLeadSurrogate n = (0xD800 \<le> n \<and> n \<le> 0xDBFF)"

definition isTrailSurrogate :: "nat \<Rightarrow> bool" where
  "isTrailSurrogate n = (0xDC00 \<le> n \<and> n \<le> 0xDFFF)"

definition surrogatePair :: "nat \<Rightarrow> nat \<Rightarrow> nat" where
  "surrogatePair lead trail = (lead - 0xD800) * 0x400 + (trail - 0xDC00) + 0x10000"

definition utf8Encode :: "nat \<Rightarrow> nat list" where
  "utf8Encode cp =
     (if cp < 0x80 then [cp]
      else if cp < 0x800 then [0xC0 + cp div 64, 0x80 + cp mod 64]
      else if cp < 0x10000 then [0xE0 + cp div 4096, 0x80 + cp div 64 mod 64, 0x80 + cp mod 64]
      else [0xF0 + cp div 262144, 0x80 + cp div 4096 mod 64, 0x80 + cp div 64 mod 64,
            0x80 + cp mod 64])"

definition utf16Encode :: "nat \<Rightarrow> jsstring" where
  "utf16Encode cp =
     (if cp < 0x10000 then [codeUnit cp]
      else [codeUnit ((cp - 0x10000) div 0x400 + 0xD800), codeUnit ((cp - 0x10000) mod 0x400 + 0xDC00)])"

subsection \<open>\<open>encodeURIComponent\<close>\<close>

text \<open>
  A code unit of the unescaped set is copied. Any other is read as a code point (a lead
  surrogate with the trail surrogate after it is one code point; a surrogate on its own
  throws \<open>URIError\<close>) and each byte of its UTF-8 encoding is written as \<open>%XX\<close>.
\<close>

fun Encode :: "(nat \<Rightarrow> bool) \<Rightarrow> jsstring \<Rightarrow> js_error + jsstring" where
  "Encode unescaped [] = Inr []"
| "Encode unescaped (c # cs) =
     (if unescaped (unat c) then prepend [c] (Encode unescaped cs)
      else if isLeadSurrogate (unat c) then
        (case cs of
           [] \<Rightarrow> Inl URIError
         | d # ds \<Rightarrow>
             if isTrailSurrogate (unat d)
             then prepend (concat (map percentEncode (utf8Encode (surrogatePair (unat c) (unat d)))))
                    (Encode unescaped ds)
             else Inl URIError)
      else if isTrailSurrogate (unat c) then Inl URIError
      else prepend (concat (map percentEncode (utf8Encode (unat c)))) (Encode unescaped cs))"

definition encodeURIComponent :: "jsstring \<Rightarrow> js_error + jsstring" where
  "encodeURIComponent s = Encode uriUnescaped s"

subsection \<open>\<open>unescape\<close> and \<open>escape\<close>\<close>

text \<open>
  \<open>unescape\<close> replaces \<open>%uXXXX\<close> and \<open>%XX\<close> by the code unit with that value and copies
  everything else, a \<open>%\<close> that starts no escape included.
\<close>

function unescape :: "jsstring \<Rightarrow> jsstring" where
  "unescape [] = []"
| "unescape (c # cs) =
     (if c = 0x25 then
        (if 5 \<le> length cs \<and> hd cs = 0x75 then
           (case hexQuad (tl cs) of
              Some n \<Rightarrow> codeUnit n # unescape (drop 5 cs)
            | None \<Rightarrow> c # unescape cs)
         else if 2 \<le> length cs then
           (case hexOctet cs of
              Some n \<Rightarrow> codeUnit n # unescape (drop 2 cs)
            | None \<Rightarrow> c # unescape cs)
         else c # unescape cs)
      else c # unescape cs)"
  by pat_completeness auto
termination
  by (relation "measure length") auto

text \<open>
  \<open>escape\<close> copies the code units of its unescaped set and writes any other as \<open>%XX\<close>
  (below 256) or \<open>%uXXXX\<close>.
\<close>

definition escapeUnit :: "16 word \<Rightarrow> jsstring" where
  "escapeUnit c =
     (let n = unat c in
      if escapeUnescaped n then [c]
      else if n < 256 then percentEncode n
      else [0x25, 0x75, hexDigit (n div 4096), hexDigit (n div 256 mod 16),
            hexDigit (n div 16 mod 16), hexDigit (n mod 16)])"

definition escape :: "jsstring \<Rightarrow> jsstring" where
  "escape s = concat (map escapeUnit s)"

subsection \<open>\<open>btoa\<close> and \<open>atob\<close>\<close>

text \<open>
  \<open>btoa\<close> throws when a code unit exceeds 255 and otherwise writes the bytes in base64
  with padding. \<open>atob\<close> is the forgiving decoder: it drops ASCII whitespace, drops one or
  two trailing \<open>=\<close> when the length is a multiple of four, throws when the remaining
  length is 1 modulo 4 or a character is outside the alphabet, and discards the unused
  bits of a last incomplete group.
\<close>

definition base64Char :: "nat \<Rightarrow> 16 word" where
  "base64Char i =
     codeUnit (if i < 26 then 65 + i else if i < 52 then 71 + i else if i < 62 then i - 4
             else if i = 62 then 43 else 47)"

definition base64Value :: "16 word \<Rightarrow> nat option" where
  "base64Value c =
     (let n = unat c in
      if 65 \<le> n \<and> n \<le> 90 then Some (n - 65)
      else if 97 \<le> n \<and> n \<le> 122 then Some (n - 71)
      else if 48 \<le> n \<and> n \<le> 57 then Some (n + 4)
      else if n = 43 then Some 62
      else if n = 47 then Some 63
      else None)"

fun base64Encode :: "nat list \<Rightarrow> jsstring" where
  "base64Encode [] = []"
| "base64Encode [a] = [base64Char (a div 4), base64Char (a mod 4 * 16), 0x3D, 0x3D]"
| "base64Encode [a, b] =
     [base64Char (a div 4), base64Char (a mod 4 * 16 + b div 16), base64Char (b mod 16 * 4), 0x3D]"
| "base64Encode (a # b # c # rest) =
     [base64Char (a div 4), base64Char (a mod 4 * 16 + b div 16),
      base64Char (b mod 16 * 4 + c div 64), base64Char (c mod 64)] @ base64Encode rest"

definition btoa :: "jsstring \<Rightarrow> js_error + jsstring" where
  "btoa s = (if list_ex (\<lambda>c. 255 < unat c) s then Inl InvalidCharacterError
             else Inr (base64Encode (map unat s)))"

definition isAsciiWhitespace :: "16 word \<Rightarrow> bool" where
  "isAsciiWhitespace c = (c \<in> set [0x09, 0x0A, 0x0C, 0x0D, 0x20])"

definition stripPadding :: "jsstring \<Rightarrow> jsstring" where
  "stripPadding d =
     (if length d mod 4 = 0 then
        (if 2 \<le> length d \<and> last d = 0x3D \<and> last (butlast d) = 0x3D then butlast (butlast d)
         else if 1 \<le> length d \<and> last d = 0x3D then butlast d
         else d)
      else d)"

fun base64Decode :: "nat list \<Rightarrow> nat list" where
  "base64Decode (a # b # c # d # rest) =
     [a * 4 + b div 16, b mod 16 * 16 + c div 4, c mod 4 * 64 + d] @ base64Decode rest"
| "base64Decode [a, b, c] = [a * 4 + b div 16, b mod 16 * 16 + c div 4]"
| "base64Decode [a, b] = [a * 4 + b div 16]"
| "base64Decode _ = []"

definition atob :: "jsstring \<Rightarrow> js_error + jsstring" where
  "atob dat =
     (let d = stripPadding (filter (\<lambda>c. \<not> isAsciiWhitespace c) dat) in
      if length d mod 4 = 1 then Inl InvalidCharacterError
      else (case those (map base64Value d) of
              None \<Rightarrow> Inl InvalidCharacterError
            | Some vs \<Rightarrow> Inr (map codeUnit (base64Decode vs))))"

subsection \<open>\<open>decodeURIComponent\<close>\<close>

text \<open>
  A code unit other than \<open>%\<close> is copied. \<open>%XX\<close> with a byte below 128 gives that code unit.
  A byte with \<open>n\<close> leading one bits (2 to 4) starts a sequence of \<open>n\<close> escaped bytes, which
  must be the UTF-8 encoding of a code point (no overlong form, no surrogate, nothing
  above \<open>10FFFF\<close>); the code point is written in UTF-16. Everything else throws
  \<open>URIError\<close>.
\<close>

definition leadingOnes :: "nat \<Rightarrow> nat" where
  "leadingOnes b =
     (if b < 0x80 then 0 else if b < 0xC0 then 1 else if b < 0xE0 then 2
      else if b < 0xF0 then 3 else if b < 0xF8 then 4 else 5)"

fun continuationBytes :: "nat \<Rightarrow> jsstring \<Rightarrow> nat list option" where
  "continuationBytes 0 cs = Some []"
| "continuationBytes (Suc n) (p # h # l # rest) =
     (if p = 0x25 then
        (case hexOctet [h, l] of
           None \<Rightarrow> None
         | Some b \<Rightarrow> map_option ((#) b) (continuationBytes n rest))
      else None)"
| "continuationBytes (Suc n) _ = None"

definition isContinuation :: "nat \<Rightarrow> bool" where
  "isContinuation b = (0x80 \<le> b \<and> b \<le> 0xBF)"

fun utf8Decode :: "nat list \<Rightarrow> nat option" where
  "utf8Decode [b0, b1] =
     (if 0xC0 \<le> b0 \<and> b0 \<le> 0xDF \<and> isContinuation b1 then
        (let v = (b0 - 0xC0) * 64 + (b1 - 0x80) in if 0x80 \<le> v then Some v else None)
      else None)"
| "utf8Decode [b0, b1, b2] =
     (if 0xE0 \<le> b0 \<and> b0 \<le> 0xEF \<and> isContinuation b1 \<and> isContinuation b2 then
        (let v = (b0 - 0xE0) * 4096 + (b1 - 0x80) * 64 + (b2 - 0x80) in
         if 0x800 \<le> v \<and> \<not> (0xD800 \<le> v \<and> v \<le> 0xDFFF) then Some v else None)
      else None)"
| "utf8Decode [b0, b1, b2, b3] =
     (if 0xF0 \<le> b0 \<and> b0 \<le> 0xF7 \<and> isContinuation b1 \<and> isContinuation b2 \<and> isContinuation b3 then
        (let v = (b0 - 0xF0) * 262144 + (b1 - 0x80) * 4096 + (b2 - 0x80) * 64 + (b3 - 0x80) in
         if 0x10000 \<le> v \<and> v \<le> 0x10FFFF then Some v else None)
      else None)"
| "utf8Decode _ = None"

function Decode :: "jsstring \<Rightarrow> js_error + jsstring" where
  "Decode [] = Inr []"
| "Decode (c # cs) =
     (if c \<noteq> 0x25 then prepend [c] (Decode cs)
      else
        (case hexOctet cs of
           None \<Rightarrow> Inl URIError
         | Some B \<Rightarrow>
             if leadingOnes B = 0 then prepend [codeUnit B] (Decode (drop 2 cs))
             else if leadingOnes B = 1 \<or> 4 < leadingOnes B then Inl URIError
             else
               (case continuationBytes (leadingOnes B - 1) (drop 2 cs) of
                  None \<Rightarrow> Inl URIError
                | Some octets \<Rightarrow>
                    (case utf8Decode (B # octets) of
                       None \<Rightarrow> Inl URIError
                     | Some V \<Rightarrow>
                         prepend (utf16Encode V)
                           (Decode (drop (3 * (leadingOnes B - 1)) (drop 2 cs)))))))"
  by pat_completeness auto
termination
  by (relation "measure length") auto

definition decodeURIComponent :: "jsstring \<Rightarrow> js_error + jsstring" where
  "decodeURIComponent s = Decode s"

subsection \<open>\<open>encode\<close> and \<open>decode\<close> of the page (pages/index.tsx)\<close>

definition encode :: "jsstring option \<Rightarrow> js_error + jsstring" where
  "encode str =
     (case encodeURIComponent (case str of None \<Rightarrow> [] | Some s \<Rightarrow> s) of
        Inl e \<Rightarrow> Inl e
      | Inr u \<Rightarrow> btoa (unescape u))"

definition decode :: "jsstring option \<Rightarrow> js_error + jsstring" where
  "decode bytes =
     (case atob (case bytes of None \<Rightarrow> [] | Some b \<Rightarrow> b) of
        Inl e \<Rightarrow> Inl e
      | Inr a \<Rightarrow>
          (let escaped = escape a in
           case decodeURIComponent escaped of
             Inr r \<Rightarrow> Inr r
           | Inl err \<Rightarrow> Inr (unescape escaped)))"

subsection \<open>Well-formed strings\<close>

text \<open>
  A string is well formed when every surrogate is paired: a lead surrogate is followed by
  a trail surrogate, and a trail surrogate follows a lead surrogate.
\<close>

fun wellFormed :: "jsstring \<Rightarrow> bool" where
  "wellFormed [] = True"
| "wellFormed (c # cs) =
     (if isLeadSurrogate (unat c) then
        (case cs of [] \<Rightarrow> False | d # ds \<Rightarrow> isTrailSurrogate (unat d) \<and> wellFormed ds)
      else \<not> isTrailSurrogate (unat c) \<and> wellFormed cs)"

text \<open>
  For the proofs: the UTF-8 bytes of a well-formed string, and the base64 digits of a byte
  sequence before they are written as characters and padded.
\<close>

fun utf8Bytes :: "jsstring \<Rightarrow> nat list" where
  "utf8Bytes [] = []"
| "utf8Bytes (c # cs) =
     (if isLeadSurrogate (unat c) then
        (case cs of [] \<Rightarrow> []
         | d # ds \<Rightarrow> utf8Encode (surrogatePair (unat c) (unat d)) @ utf8Bytes ds)
      else utf8Encode (unat c) @ utf8Bytes cs)"

fun sextets :: "nat list \<Rightarrow> nat list" where
  "sextets [] = []"
| "sextets [a] = [a div 4, a mod 4 * 16]"
| "sextets [a, b] = [a div 4, a mod 4 * 16 + b div 16, b mod 16 * 4]"
| "sextets (a # b # c # rest) =
     [a div 4, a mod 4 * 16 + b div 16, b mod 16 * 4 + c div 64, c mod 64] @ sextets rest"

section \<open>The collaborative editor component (components/FirepadEditor.tsx)\<close>

subsection \<open>Data\<close>

text \<open>
  A firebase database reference is a path; \<open>key\<close> is its last segment (\<open>null\<close> at the
  root) and \<open>child\<close> appends a segment. Only these two operations are used.
\<close>

record Reference =
  segments :: "jsstring list"

definition key :: "Reference \<Rightarrow> jsstring option" where
  "key r = (if segments r = [] then None else Some (last (segments r)))"

definition child :: "Reference \<Rightarrow> jsstring \<Rightarrow> Reference" where
  "child r p = r\<lparr>segments := segments r @ [p]\<rparr>"

datatype connection = disconnected | connecting | connected

text \<open>Values of the editor's option object, and the option object itself.\<close>

datatype optval = VBool bool | VNum int | VStr jsstring | VObj "(jsstring \<times> optval) list"

type_synonym options = "jsstring \<rightharpoonup> optval"

text \<open>The props of the component the effect and the render read.\<close>

record FirepadEditorProps =
  defaultValue :: "jsstring option"
  firebaseRef :: "Reference option"
  useEditorWithVim :: bool
  dataTestId :: jsstring
  path :: "jsstring option"
  language :: "jsstring option"
  options :: "options option"

text \<open>
  The objects one run of the effect creates: the Y.Doc (its \<open>isInitialized\<close> map and its
  \<open>monaco\<close> text), the websocket provider (server, room, the local awareness state, the
  registered handlers) and the editor binding.
\<close>

record session =
  documentId :: jsstring
  server :: jsstring
  localState :: "jsstring \<rightharpoonup> jsstring"
  isInitializedMap :: "jsstring \<rightharpoonup> bool"
  monacoText :: jsstring
  monacoBinding :: bool
  awarenessHandlers :: "jsstring list"
  providerHandlers :: "jsstring list"
  ydocumentDestroyed :: bool
  providerDestroyed :: bool

text \<open>The library calls and state setters of the effect, in the order they are made.\<close>

datatype action =
    SetLoading bool
  | NewYDoc
  | NewWebsocketProvider jsstring jsstring
  | SetLocalStateField jsstring jsstring
  | GetText jsstring
  | NewMonacoBinding
  | AwarenessOn jsstring
  | ProviderOn jsstring
  | SetConnectionStatus connection
  | SetIsSynced bool
  | YDocDestroy
  | ProviderDestroy
  | MapSet jsstring bool
  | TextInsert nat jsstring
  | ConsoleLog jsstring
  | InsertAdjacentHTML jsstring

subsection \<open>The document body and \<open>insertAdjacentHTML\<close>\<close>

text \<open>
  \<open>insertAdjacentHTML('beforeend', html)\<close> hands \<open>html\<close> to the HTML fragment parser and
  appends the nodes it makes. The parser is modelled as far as a leading \<open>style\<close>
  element goes: the input stream is preprocessed (CR LF and CR become LF), the text of the
  element runs up to the first end tag of \<open>style\<close> (\<open></\<close>, the name in either case, then a
  tab, LF, FF, space, \<open>/\<close> or \<open>></\<close>) or to the end of the input, and a NUL in it becomes
  U+FFFD. What the parser makes of the input after that end tag's name is not modelled:
  \<open>Markup r\<close> stands for the nodes it makes of the rest \<open>r\<close>, unless the rest is just the
  \<open>></\<close> that closes the tag.
\<close>

datatype node = StyleElement jsstring | Markup jsstring

fun normalizeNewlines :: "jsstring \<Rightarrow> jsstring" where
  "normalizeNewlines [] = []"
| "normalizeNewlines [c] = [if c = 0x0D then 0x0A else c]"
| "normalizeNewlines (c # d # rest) =
     (if c = 0x0D then
        (if d = 0x0A then 0x0A # normalizeNewlines rest else 0x0A # normalizeNewlines (d # rest))
      else c # normalizeNewlines (d # rest))"

definition replaceNul :: "16 word \<Rightarrow> 16 word" where
  "replaceNul c = (if c = 0 then 0xFFFD else c)"

definition asciiLower :: "16 word \<Rightarrow> 16 word" where
  "asciiLower c = (if 0x41 \<le> unat c \<and> unat c \<le> 0x5A then c + 0x20 else c)"

definition isTagDelimiter :: "16 word \<Rightarrow> bool" where
  "isTagDelimiter c = (c \<in> set [0x09, 0x0A, 0x0C, 0x20, 0x2F, 0x3E])"

definition styleEndTagAt :: "jsstring \<Rightarrow> bool" where
  "styleEndTagAt s =
     (8 \<le> length s \<and> s ! 0 = 0x3C \<and> s ! 1 = 0x2F
      \<and> asciiLower (s ! 2) = 0x73 \<and> asciiLower (s ! 3) = 0x74 \<and> asciiLower (s ! 4) = 0x79
      \<and> asciiLower (s ! 5) = 0x6C \<and> asciiLower (s ! 6) = 0x65 \<and> isTagDelimiter (s ! 7))"

text \<open>
  The text of the element, and the rest of the input from the delimiter after the end
  tag's name on (\<open>None\<close> when the input ends with no end tag).
\<close>

fun rawtext :: "jsstring \<Rightarrow> jsstring \<times> jsstring option" where
  "rawtext [] = ([], None)"
| "rawtext (c # cs) =
     (if styleEndTagAt (c # cs) then ([], Some (drop 6 cs))
      else (case rawtext cs of (t, r) \<Rightarrow> (c # t, r)))"

definition parseFragment :: "jsstring \<Rightarrow> node list" where
  "parseFragment html =
     (let h = normalizeNewlines html in
      if take 7 h = asc ''<style>'' then
        (case rawtext (drop 7 h) of
           (t, None) \<Rightarrow> [StyleElement (map replaceNul t)]
         | (t, Some r) \<Rightarrow>
             StyleElement (map replaceNul t) # (if r = asc ''>'' then [] else [Markup r]))
      else [Markup h])"

text \<open>
  One mounted component: its React state (\<open>editor\<close>, \<open>connectionStatus\<close>,
  \<open>isSynced\<close>), the atoms it reads (\<open>userRef\<close>, \<open>fileId\<close>, \<open>loading\<close>), the live
  session if the effect has run, the children appended to \<open>document.body\<close>, and the
  trace of calls made so far.
\<close>

record 'e world =
  editor :: "'e option"
  connectionStatus :: connection
  isSynced :: bool
  userRef :: "Reference option"
  fileId :: "jsstring option"
  loading :: bool
  session :: "session option"
  body :: "node list"
  trace :: "action list"

definition initial_world :: "Reference option \<Rightarrow> jsstring option \<Rightarrow> 'e world" where
  "initial_world uref fid =
     \<lparr>editor = None, connectionStatus = disconnected, isSynced = False,
      userRef = uref, fileId = fid, loading = True, session = None, body = [], trace = []\<rparr>"

subsection \<open>The effect\<close>

definition WEBSOCKET_SERVER :: "jsstring \<Rightarrow> jsstring" where
  "WEBSOCKET_SERVER protocol =
     (if protocol = asc ''http:'' then asc ''ws:'' else asc ''wss:'') @ asc ''//localhost:1234''"

definition affectsLoading :: "jsstring option \<Rightarrow> bool" where
  "affectsLoading p =
     (truthy p \<and> (case p of None \<Rightarrow> False
        | Some s \<Rightarrow> s \<in> set [asc ''myfile.cpp'', asc ''myfile.java'', asc ''myfile.py'']))"

definition mkDocumentId :: "jsstring \<Rightarrow> Reference \<Rightarrow> jsstring" where
  "mkDocumentId fid ref = fid @ asc ''.'' @ tpl (key ref)"

text \<open>
  \<open>colorFromUserId\<close> (scripts/colorFromUserId) and \<open>location.protocol\<close> are parameters.
  The effect returns at once unless \<open>firebaseRef\<close>, \<open>editor\<close>, \<open>userRef\<close> and
  \<open>fileId\<close> are all truthy.
\<close>

definition useEffect ::
  "(jsstring option \<Rightarrow> jsstring) \<Rightarrow> jsstring \<Rightarrow> FirepadEditorProps \<Rightarrow> 'e world \<Rightarrow> 'e world" where
  "useEffect colorFromUserId protocol props w =
     (case (firebaseRef props, editor w, userRef w, fileId w) of
        (Some ref, Some ed, Some uref, Some fid) \<Rightarrow>
          if fid = [] then w
          else
            let w1 = (if affectsLoading (path props)
                      then w\<lparr>loading := False, trace := trace w @ [SetLoading False]\<rparr> else w);
                docId = mkDocumentId fid ref;
                color = colorFromUserId (key uref);
                s = \<lparr>documentId = docId, server = WEBSOCKET_SERVER protocol,
                     localState = [asc ''cursorColor'' \<mapsto> color],
                     isInitializedMap = Map.empty, monacoText = [],
                     monacoBinding = True,
                     awarenessHandlers = [asc ''change''],
                     providerHandlers = [asc ''status'', asc ''sync''],
                     ydocumentDestroyed = False, providerDestroyed = False\<rparr>
            in w1\<lparr>session := Some s,
                  trace := trace w1 @
                    [NewYDoc,
                     NewWebsocketProvider (WEBSOCKET_SERVER protocol) docId,
                     SetLocalStateField (asc ''cursorColor'') color,
                     GetText (asc ''monaco''),
                     NewMonacoBinding,
                     AwarenessOn (asc ''change''),
                     ProviderOn (asc ''status''),
                     ProviderOn (asc ''sync'')]\<rparr>
      | _ \<Rightarrow> w)"

text \<open>The function the effect returns: run on unmount and before the effect runs again.\<close>

definition cleanup :: "'e world \<Rightarrow> 'e world" where
  "cleanup w =
     (case session w of
        None \<Rightarrow> w
      | Some s \<Rightarrow>
          w\<lparr>connectionStatus := disconnected, isSynced := False,
            session := Some (s\<lparr>ydocumentDestroyed := True, providerDestroyed := True\<rparr>),
            trace := trace w @
              [SetConnectionStatus disconnected, SetIsSynced False, YDocDestroy, ProviderDestroy]\<rparr>)"

subsection \<open>The provider's handlers\<close>

definition on_status :: "connection \<Rightarrow> 'e world \<Rightarrow> 'e world" where
  "on_status status w =
     w\<lparr>connectionStatus := status, trace := trace w @ [SetConnectionStatus status]\<rparr>"

text \<open>
  The \<open>sync\<close> handler: on a successful sync it initialises the document once, guarded by
  the \<open>isInitialized\<close> entry of the document's map, then records the sync state.
\<close>

definition sync_document :: "jsstring option \<Rightarrow> bool \<Rightarrow> session \<Rightarrow> session \<times> action list" where
  "sync_document dv synced s =
     (if synced then
        (if \<not> (case isInitializedMap s (asc ''isInitialized'') of None \<Rightarrow> False | Some b \<Rightarrow> b)
         then (s\<lparr>isInitializedMap := (isInitializedMap s)(asc ''isInitialized'' \<mapsto> True),
                 monacoText := (case dv of None \<Rightarrow> [] | Some d \<Rightarrow> d) @ monacoText s\<rparr>,
               [MapSet (asc ''isInitialized'') True,
                TextInsert 0 (case dv of None \<Rightarrow> [] | Some d \<Rightarrow> d)])
         else (s, []))
      else (s, []))"

definition on_sync :: "FirepadEditorProps \<Rightarrow> bool \<Rightarrow> 'e world \<Rightarrow> 'e world" where
  "on_sync props synced w =
     (case session w of
        None \<Rightarrow> w
      | Some s \<Rightarrow>
          let (s', acts) = sync_document (defaultValue props) synced s
          in w\<lparr>session := Some s', isSynced := synced,
               trace := trace w @ acts @ [SetIsSynced synced]\<rparr>)"

subsection \<open>Render\<close>

text \<open>The option object handed to the Monaco editor: read-only until the session is synced.\<close>

definition editorOptions :: "bool \<Rightarrow> options option \<Rightarrow> options" where
  "editorOptions synced opts =
     (let editorOptions = (case opts of None \<Rightarrow> Map.empty | Some m \<Rightarrow> m)
      in if \<not> synced then editorOptions(asc ''readOnly'' \<mapsto> VBool True) else editorOptions)"

definition render_options :: "FirepadEditorProps \<Rightarrow> 'e world \<Rightarrow> options" where
  "render_options props w = editorOptions (isSynced w) (options props)"

subsection \<open>The awareness handler\<close>

text \<open>
  Client ids are the unsigned 32-bit numbers Yjs draws for each document; as a number in
  a template literal such an id prints in decimal.
\<close>

fun decimal :: "nat \<Rightarrow> jsstring" where
  "decimal n =
     (if n < 10 then [codeUnit (48 + n)] else decimal (n div 10) @ [codeUnit (48 + n mod 10)])"

declare decimal.simps [simp del]

definition toString :: "32 word \<Rightarrow> jsstring" where
  "toString n = decimal (unat n)"

record UserAwarenessData =
  cursorColor :: "jsstring option"

type_synonym awareness_states = "32 word \<rightharpoonup> UserAwarenessData"

text \<open>\<open>awarenessState.get(addedUserID)?.cursorColor ?? 'orange'\<close>\<close>

definition userColor :: "awareness_states \<Rightarrow> 32 word \<Rightarrow> jsstring" where
  "userColor awarenessState addedUserID =
     (case awarenessState addedUserID of
        None \<Rightarrow> asc ''orange''
      | Some d \<Rightarrow> (case cursorColor d of None \<Rightarrow> asc ''orange'' | Some c \<Rightarrow> c))"

definition styleToAdd :: "32 word \<Rightarrow> jsstring \<Rightarrow> jsstring" where
  "styleToAdd addedUserID color =
     asc ''.yRemoteSelection-'' @ toString addedUserID
     @ asc '', .yRemoteSelectionHead-'' @ toString addedUserID @ asc '' {'' @ [0x0A]
     @ asc ''              --yjs-selection-color: '' @ color @ asc '';'' @ [0x0A]
     @ asc ''            }''"

text \<open>The argument of \<open>insertAdjacentHTML\<close>: the rule between \<open><style>\<close> and \<open></style>\<close>.\<close>

definition styleHTML :: "awareness_states \<Rightarrow> 32 word \<Rightarrow> jsstring" where
  "styleHTML awarenessState addedUserID =
     asc ''<style>'' @ styleToAdd addedUserID (userColor awarenessState addedUserID)
     @ asc ''</style>''"

definition insertAdjacentHTML :: "jsstring \<Rightarrow> 'e world \<Rightarrow> 'e world" where
  "insertAdjacentHTML html w =
     w\<lparr>body := body w @ parseFragment html, trace := trace w @ [InsertAdjacentHTML html]\<rparr>"

text \<open>The loop over \<open>added\<close>: one \<open>console.log\<close> and one insertion at the end of the body each.\<close>

fun add_styles :: "awareness_states \<Rightarrow> 32 word list \<Rightarrow> 'e world \<Rightarrow> 'e world" where
  "add_styles awarenessState [] w = w"
| "add_styles awarenessState (addedUserID # rest) w =
     add_styles awarenessState rest
       (insertAdjacentHTML (styleHTML awarenessState addedUserID)
          (w\<lparr>trace := trace w @
              [ConsoleLog (styleToAdd addedUserID (userColor awarenessState addedUserID))]\<rparr>))"

definition on_change ::
  "awareness_states \<Rightarrow> 32 word list \<Rightarrow> 32 word list \<Rightarrow> 32 word list \<Rightarrow> 'e world \<Rightarrow> 'e world" where
  "on_change awarenessState added updated removed w =
     (if length added = 0 then w else add_styles awarenessState added w)"

subsection \<open>Events of a document and of a component\<close>

text \<open>
  What happens to one shared document while its session lives: the provider reports a
  sync state, or an update (a local edit or a remote one) replaces the text; a remote
  update may carry the \<open>isInitialized\<close> entry another client has set. No code removes
  that entry.
\<close>

datatype doc_event = SyncEvent bool | UpdateEvent jsstring bool

fun doc_step :: "jsstring option \<Rightarrow> doc_event \<Rightarrow> session \<Rightarrow> session \<times> action list" where
  "doc_step dv (SyncEvent b) s = sync_document dv b s"
| "doc_step dv (UpdateEvent t f) s =
     (s\<lparr>monacoText := t,
        isInitializedMap := (if f then (isInitializedMap s)(asc ''isInitialized'' \<mapsto> True)
                             else isInitializedMap s)\<rparr>, [])"

fun doc_run :: "jsstring option \<Rightarrow> doc_event list \<Rightarrow> session \<Rightarrow> session \<times> action list" where
  "doc_run dv [] s = (s, [])"
| "doc_run dv (e # es) s =
     (let (s1, a1) = doc_step dv e s; (s2, a2) = doc_run dv es s1 in (s2, a1 @ a2))"

fun is_TextInsert :: "action \<Rightarrow> bool" where
  "is_TextInsert (TextInsert _ _) = True"
| "is_TextInsert _ = False"

definition initialized :: "session \<Rightarrow> bool" where
  "initialized s = (case isInitializedMap s (asc ''isInitialized'') of None \<Rightarrow> False | Some b \<Rightarrow> b)"

subsection \<open>Two clients of one document\<close>

text \<open>
  Two clients hold a replica each of one shared document; a new Y.Doc is empty. What the
  sync handler of one client does to its replica reaches the other replica later, as the
  operations it made: there the map entry is set and the text is inserted at its offset.
  (Where both replicas have inserted at one offset the shared text keeps both insertions;
  Yjs orders them by client id, which is not modelled: a remote insertion is put at its
  offset.) \<open>operations\<close> collects what has been done to the shared document, by either
  client, in the order it was done.
\<close>

datatype client = ClientA | ClientB

datatype net_event = SyncAt client bool | DeliverTo client

record network =
  replicaA :: session
  replicaB :: session
  outboxA :: "action list"
  outboxB :: "action list"
  operations :: "action list"

definition new_network :: "session \<Rightarrow> session \<Rightarrow> network" where
  "new_network sA sB =
     \<lparr>replicaA = sA\<lparr>isInitializedMap := Map.empty, monacoText := []\<rparr>,
      replicaB = sB\<lparr>isInitializedMap := Map.empty, monacoText := []\<rparr>,
      outboxA = [], outboxB = [], operations = []\<rparr>"

fun apply_remote :: "action \<Rightarrow> session \<Rightarrow> session" where
  "apply_remote (MapSet k v) s = s\<lparr>isInitializedMap := (isInitializedMap s)(k \<mapsto> v)\<rparr>"
| "apply_remote (TextInsert n t) s =
     s\<lparr>monacoText := take n (monacoText s) @ t @ drop n (monacoText s)\<rparr>"
| "apply_remote a s = s"

definition deliver :: "action list \<Rightarrow> session \<Rightarrow> session" where
  "deliver acts s = fold apply_remote acts s"

fun net_step :: "jsstring option \<Rightarrow> net_event \<Rightarrow> network \<Rightarrow> network" where
  "net_step dv (SyncAt ClientA b) n =
     (case sync_document dv b (replicaA n) of
        (s, acts) \<Rightarrow>
          n\<lparr>replicaA := s, outboxA := outboxA n @ acts, operations := operations n @ acts\<rparr>)"
| "net_step dv (SyncAt ClientB b) n =
     (case sync_document dv b (replicaB n) of
        (s, acts) \<Rightarrow>
          n\<lparr>replicaB := s, outboxB := outboxB n @ acts, operations := operations n @ acts\<rparr>)"
| "net_step dv (DeliverTo ClientA) n =
     n\<lparr>replicaA := deliver (outboxB n) (replicaA n), outboxB := []\<rparr>"
| "net_step dv (DeliverTo ClientB) n =
     n\<lparr>replicaB := deliver (outboxA n) (replicaB n), outboxA := []\<rparr>"

fun net_run :: "jsstring option \<Rightarrow> net_event list \<Rightarrow> network \<Rightarrow> network" where
  "net_run dv [] n = n"
| "net_run dv (e # es) n = net_run dv es (net_step dv e n)"

text \<open>
  The events of a mounted component: the editor mounts (\<open>setEditor\<close>), the effect runs,
  its cleanup runs, and the handlers it registered are called. A destroyed provider
  calls no handler.
\<close>

datatype 'e event =
    Mounted 'e
  | RunEffect
  | RunCleanup
  | Status connection
  | Sync bool
  | Change awareness_states "32 word list" "32 word list" "32 word list"

definition live :: "'e world \<Rightarrow> bool" where
  "live w = (case session w of None \<Rightarrow> False | Some s \<Rightarrow> \<not> providerDestroyed s)"

fun step ::
  "(jsstring option \<Rightarrow> jsstring) \<Rightarrow> jsstring \<Rightarrow> FirepadEditorProps \<Rightarrow> 'e event \<Rightarrow> 'e world \<Rightarrow> 'e world" where
  "step cf proto props (Mounted e) w = w\<lparr>editor := Some e\<rparr>"
| "step cf proto props RunEffect w = useEffect cf proto props w"
| "step cf proto props RunCleanup w = cleanup w"
| "step cf proto props (Status c) w = (if live w then on_status c w else w)"
| "step cf proto props (Sync b) w = (if live w then on_sync props b w else w)"
| "step cf proto props (Change st a u r) w = (if live w then on_change st a u r w else w)"

fun run ::
  "(jsstring option \<Rightarrow> jsstring) \<Rightarrow> jsstring \<Rightarrow> FirepadEditorProps \<Rightarrow> 'e event list \<Rightarrow> 'e world \<Rightarrow> 'e world" where
  "run cf proto props [] w = w"
| "run cf proto props (e # es) w = run cf proto props es (step cf proto props e w)"

section \<open>The page (pages/index.tsx)\<close>

subsection \<open>Language tabs\<close>

record tab =
  label :: jsstring
  tab_value :: jsstring

definition langTabs :: "tab list" where
  "langTabs =
     [\<lparr>label = asc ''Main.cpp'', tab_value = asc ''cpp''\<rparr>,
      \<lparr>label = asc ''Main.java'', tab_value = asc ''java''\<rparr>,
      \<lparr>label = asc ''Main.py'', tab_value = asc ''py''\<rparr>]"

text \<open>\<open>router.query.lang\<close> is a string, an array of strings, or undefined.\<close>

datatype query_value = QUndefined | QString jsstring | QArray "jsstring list"

text \<open>\<open>{ cpp: 54, java: 62, py: 71 }[lang]\<close> and \<open>{ cpp: 'cpp', java: 'java', py: 'python' }[lang]\<close>\<close>

definition language_id_of :: "jsstring \<Rightarrow> nat option" where
  "language_id_of l = map_of [(asc ''cpp'', 54), (asc ''java'', 62), (asc ''py'', 71)] l"

definition monaco_language :: "jsstring \<Rightarrow> jsstring option" where
  "monaco_language l =
     map_of [(asc ''cpp'', asc ''cpp''), (asc ''java'', asc ''java''), (asc ''py'', asc ''python'')] l"

subsection \<open>The judge\<close>

text \<open>
  The body of a judge response: the \<open>error\<close> field and the four base64 fields the page
  decodes; \<open>other\<close> stands for the fields it passes on untouched (status, time, memory).
\<close>

record 'x JudgeResult =
  error :: "jsstring option"
  stdout :: "jsstring option"
  stderr :: "jsstring option"
  compile_output :: "jsstring option"
  message :: "jsstring option"
  other :: 'x

record request =
  source_code :: jsstring
  language_id :: "nat option"
  stdin :: jsstring
  compiler_options :: jsstring
  command_line_arguments :: jsstring
  redirect_stderr_to_stdout :: bool

text \<open>
  How a \<open>fetch\<close> settles: the promise rejects, or a response arrives with its \<open>ok\<close>
  flag, its status and its body (\<open>None\<close> when \<open>resp.json()\<close> rejects).
\<close>

datatype 'x fetch_outcome = Rejected | Responded bool nat "'x JudgeResult option"

text \<open>
  The argument of \<open>alert\<close>: \<open>'Error: ' + data.error\<close>, or
  \<open>'Error: ' + resp.status + ' - ' + JSON.stringify(data)\<close>.
\<close>

datatype 'x alert = AlertError jsstring | AlertStatus nat "'x JudgeResult"

datatype console_entry = FetchRejected | JsonRejected | Thrown js_error

subsection \<open>State\<close>

text \<open>
  The refs \<open>editor\<close> and \<open>inputEditor\<close> hold a mounted editor, given here by the text
  \<open>getValue()\<close> returns, or null; then the React state \<open>result\<close>, \<open>isRunning\<close> and
  \<open>lang\<close>, the page's URL, and what the page has sent, alerted and logged.
\<close>

record 'x Home =
  editorRef :: "jsstring option"
  inputEditorRef :: "jsstring option"
  result :: "'x JudgeResult option"
  isRunning :: bool
  lang :: jsstring
  href :: jsstring
  sent :: "request list"
  alerts :: "'x alert list"
  console :: "console_entry list"

definition initial_Home :: "jsstring \<Rightarrow> 'x Home" where
  "initial_Home url =
     \<lparr>editorRef = None, inputEditorRef = None, result = None, isRunning = False,
      lang = asc ''cpp'', href = url, sent = [], alerts = [], console = []\<rparr>"

subsection \<open>Choosing the language\<close>

text \<open>
  The reducer behind \<open>setLang\<close>: it rewrites the URL's query
  (\<open>href.split('?')[0] + '?lang=' + next\<close>) and the new state is \<open>next\<close>.
\<close>

definition setLang :: "jsstring \<Rightarrow> 'x Home \<Rightarrow> 'x Home" where
  "setLang next h =
     h\<lparr>href := takeWhile (\<lambda>c. c \<noteq> 0x3F) (href h) @ asc ''?lang='' @ next, lang := next\<rparr>"

text \<open>The effect on \<open>router.isReady\<close>.\<close>

definition routerEffect :: "bool \<Rightarrow> query_value \<Rightarrow> 'x Home \<Rightarrow> 'x Home" where
  "routerEffect isReady q h =
     (if isReady then
        (if q = QString (asc ''cpp'') \<or> q = QString (asc ''java'') \<or> q = QString (asc ''py'')
         then (case q of QString l \<Rightarrow> setLang l h | _ \<Rightarrow> h)
         else h)
      else h)"

text \<open>
  \<open>onTabSelect\<close> of the language tab bar. The tab bar (components/TabBar) is not part of
  the sources at hand; it is taken to call \<open>onTabSelect\<close> with one of the tabs it was
  given, chosen by its index.
\<close>

definition onTabSelect :: "tab \<Rightarrow> 'x Home \<Rightarrow> 'x Home" where
  "onTabSelect t h = setLang (tab_value t) h"

definition selectTab :: "nat \<Rightarrow> 'x Home \<Rightarrow> 'x Home" where
  "selectTab i h = (if i < length langTabs then onTabSelect (langTabs ! i) h else h)"

subsection \<open>Running the code\<close>

text \<open>
  What the promise chain does once the fetch has settled: \<open>then\<close> (alert, or decode the
  four fields and set the result), \<open>catch\<close> (log), \<open>finally\<close> (\<open>isRunning\<close> is false).
\<close>

definition decodeFields :: "'x JudgeResult \<Rightarrow> js_error + 'x JudgeResult" where
  "decodeFields dat =
     (case decode (stdout dat) of Inl e \<Rightarrow> Inl e | Inr so \<Rightarrow>
      (case decode (stderr dat) of Inl e \<Rightarrow> Inl e | Inr se \<Rightarrow>
       (case decode (compile_output dat) of Inl e \<Rightarrow> Inl e | Inr co \<Rightarrow>
        (case decode (message dat) of Inl e \<Rightarrow> Inl e | Inr m \<Rightarrow>
           Inr (dat\<lparr>stdout := Some so, stderr := Some se, compile_output := Some co,
                    message := Some m\<rparr>)))))"

definition settle :: "'x fetch_outcome \<Rightarrow> 'x Home \<Rightarrow> 'x Home" where
  "settle outcome h =
     (let h' =
        (case outcome of
           Rejected \<Rightarrow> h\<lparr>console := console h @ [FetchRejected]\<rparr>
         | Responded ok status json \<Rightarrow>
             (case json of
                None \<Rightarrow> h\<lparr>console := console h @ [JsonRejected]\<rparr>
              | Some dat \<Rightarrow>
                  if truthy (error dat) \<or> \<not> ok then
                    h\<lparr>alerts := alerts h @
                        [if truthy (error dat) then AlertError (tpl (error dat))
                         else AlertStatus status dat]\<rparr>
                  else
                    (case decodeFields dat of
                       Inl e \<Rightarrow> h\<lparr>console := console h @ [Thrown e]\<rparr>
                     | Inr dat' \<Rightarrow> h\<lparr>result := Some dat'\<rparr>)))
      in h'\<lparr>isRunning := False\<rparr>)"

text \<open>
  \<open>handleRunCode\<close>, with the network as a function from the request to the way the fetch
  settles. The second component is the exception the handler itself throws, if any: an
  \<open>encode\<close> that throws leaves the handler before the request is made.
\<close>

definition handleRunCode ::
  "(request \<Rightarrow> 'x fetch_outcome) \<Rightarrow> 'x Home \<Rightarrow> 'x Home \<times> js_error option" where
  "handleRunCode fetch h =
     (case (editorRef h, inputEditorRef h) of
        (Some src, Some inp) \<Rightarrow>
          (let h1 = h\<lparr>isRunning := True, result := None\<rparr> in
           case encode (Some src) of
             Inl e \<Rightarrow> (h1, Some e)
           | Inr source \<Rightarrow>
               (case encode (Some inp) of
                  Inl e \<Rightarrow> (h1, Some e)
                | Inr input \<Rightarrow>
                    (let dat = \<lparr>source_code = source, language_id = language_id_of (lang h),
                                 stdin = input, compiler_options = [],
                                 command_line_arguments = [],
                                 redirect_stderr_to_stdout = False\<rparr>
                     in (settle (fetch dat) (h1\<lparr>sent := sent h1 @ [dat]\<rparr>), None))))
      | _ \<Rightarrow> (h, None))"

subsection \<open>The panes\<close>

text \<open>
  The four child references of the file's reference (\<open>useFirebaseRef\<close>, which may still be
  undefined), and the props of the two editors. \<open>defaultCode\<close> (scripts/defaultCode) is a
  parameter.
\<close>

definition firebaseRefs :: "Reference option \<Rightarrow> jsstring \<Rightarrow> Reference option" where
  "firebaseRefs fr k =
     (if k = asc ''cpp'' then map_option (\<lambda>r. child r (asc ''editor-cpp'')) fr
      else if k = asc ''java'' then map_option (\<lambda>r. child r (asc ''editor-java'')) fr
      else if k = asc ''py'' then map_option (\<lambda>r. child r (asc ''editor-py'')) fr
      else if k = asc ''input'' then map_option (\<lambda>r. child r (asc ''input'')) fr
      else None)"

definition paneOptions :: options where
  "paneOptions =
     [asc ''minimap'' \<mapsto> VObj [(asc ''enabled'', VBool False)],
      asc ''automaticLayout'' \<mapsto> VBool False]"

definition codePaneProps ::
  "(jsstring \<Rightarrow> jsstring option) \<Rightarrow> Reference option \<Rightarrow> jsstring \<Rightarrow> FirepadEditorProps" where
  "codePaneProps defaultCode fr l =
     \<lparr>defaultValue = defaultCode l, firebaseRef = firebaseRefs fr l,
      useEditorWithVim = False, dataTestId = [], path = Some l,
      language = monaco_language l, options = Some paneOptions\<rparr>"

definition inputPaneProps :: "Reference option \<Rightarrow> FirepadEditorProps" where
  "inputPaneProps fr =
     \<lparr>defaultValue = Some [], firebaseRef = firebaseRefs fr (asc ''input''),
      useEditorWithVim = False, dataTestId = [], path = Some (asc ''input''),
      language = Some (asc ''plaintext''), options = Some paneOptions\<rparr>"

subsection \<open>Events of the page\<close>

datatype 'x home_event =
    EditorMounted jsstring
  | InputMounted jsstring
  | TabSelected nat
  | RouterEffect bool query_value
  | RunClicked "request \<Rightarrow> 'x fetch_outcome"

fun home_step :: "'x home_event \<Rightarrow> 'x Home \<Rightarrow> 'x Home" where
  "home_step (EditorMounted v) h = h\<lparr>editorRef := Some v\<rparr>"
| "home_step (InputMounted v) h = h\<lparr>inputEditorRef := Some v\<rparr>"
| "home_step (TabSelected i) h = selectTab i h"
| "home_step (RouterEffect r q) h = routerEffect r q h"
| "home_step (RunClicked fetch) h = fst (handleRunCode fetch h)"

fun home_run :: "'x home_event list \<Rightarrow> 'x Home \<Rightarrow> 'x Home" where
  "home_run [] h = h"
| "home_run (e # es) h = home_run es (home_step e h)"

section \<open>Sample values\<close>

text \<open>Concrete props and worlds at which the theorems below are instantiated.\<close>

definition sample_props :: FirepadEditorProps where
  "sample_props =
     \<lparr>defaultValue = Some (asc ''int main() {}''),
      firebaseRef = Some \<lparr>segments = [asc ''-Mabc'', asc ''editor-cpp'']\<rparr>,
      useEditorWithVim = False, dataTestId = [], path = Some (asc ''cpp''),
      language = Some (asc ''cpp''),
      options = Some [asc ''automaticLayout'' \<mapsto> VBool False]\<rparr>"

definition sample_world :: "unit world" where
  "sample_world =
     (initial_world (Some \<lparr>segments = [asc ''users'', asc ''u1'']\<rparr>) (Some (asc ''-Mabc'')))
       \<lparr>editor := Some ()\<rparr>"

definition sample_color :: "jsstring option \<Rightarrow> jsstring" where
  "sample_color k = asc ''#'' @ tpl k"

definition sample_live :: "unit world" where
  "sample_live = useEffect sample_color (asc ''https:'') sample_props sample_world"

definition sample_session :: session where
  "sample_session =
     \<lparr>documentId = asc ''-Mabc.input'', server = asc ''wss://localhost:1234'',
      localState = Map.empty, isInitializedMap = Map.empty, monacoText = [],
      monacoBinding = True, awarenessHandlers = [], providerHandlers = [],
      ydocumentDestroyed = False, providerDestroyed = False\<rparr>"



definition sample_Home :: "unit Home" where
  "sample_Home =
     (initial_Home (asc ''https://ide.example/f?x=1''))
       \<lparr>editorRef := Some (asc ''x''), inputEditorRef := Some []\<rparr>"

definition sample_judge :: "unit JudgeResult" where
  "sample_judge =
     \<lparr>error = None, stdout = Some (asc ''aGk=''), stderr = None, compile_output = None,
      message = None, other = ()\<rparr>"

definition sample_fetch :: "request \<Rightarrow> unit fetch_outcome" where
  "sample_fetch req = Responded True 200 (Some sample_judge)"




definition sample_request :: request where
  "sample_request =
     \<lparr>source_code = asc ''eA=='', language_id = Some 54, stdin = [], compiler_options = [],
      command_line_arguments = [], redirect_stderr_to_stdout = False\<rparr>"

section \<open>Auxiliary notions\<close>





text \<open>The three language values, and \<open>decode(encode(s))\<close> with the exception passed on.\<close>

definition langs :: "jsstring set" where
  "langs = {asc ''cpp'', asc ''java'', asc ''py''}"

definition decode_encode :: "jsstring \<Rightarrow> js_error + jsstring" where
  "decode_encode s = (case encode (Some s) of Inl e \<Rightarrow> Inl e | Inr b \<Rightarrow> decode (Some b))"

section \<open>Read-only gating\<close>

lemma sample_live_session: "session sample_live \<noteq> None"
  by (simp add: sample_live_def useEffect_def sample_props_def sample_world_def
      initial_world_def asc_def Let_def)

lemma isSynced_add_styles: "isSynced (add_styles st us w) = isSynced w"
  by (induction us arbitrary: w) (simp_all add: insertAdjacentHTML_def)

lemma not_synced_step:
  "\<not> isSynced w \<Longrightarrow> e \<noteq> Sync True \<Longrightarrow> \<not> isSynced (step cf proto props e w)"
  by (cases e)
    (auto simp: useEffect_def cleanup_def on_status_def on_sync_def on_change_def
      isSynced_add_styles Let_def split: option.splits prod.splits)

lemma not_synced_run:
  "\<not> isSynced w \<Longrightarrow> Sync True \<notin> set evs \<Longrightarrow> \<not> isSynced (run cf proto props evs w)"
proof (induction evs arbitrary: w)
  case Nil
  then show ?case by simp
next
  case (Cons e es)
  from Cons.prems have "\<not> isSynced (step cf proto props e w)"
    by (intro not_synced_step) auto
  with Cons show ?case by simp
qed

text \<open>
  C1. The component starts unsynced, and as long as no \<open>sync\<close> event has reported
  \<open>isSynced = true\<close> it stays so, whatever else happens; in every render made while
  \<open>isSynced\<close> is false the options passed to the editor have \<open>readOnly = true\<close>; after a
  \<open>sync\<close> event with \<open>isSynced = true\<close> on a live session the options are exactly the
  caller's \<open>props.options\<close> (the empty object when there are none), so \<open>readOnly\<close> is
  whatever the caller supplied.
\<close>

theorem readOnly_until_synced:
  "isSynced (initial_world uref fid :: 'e world) = False
   \<and> (Sync True \<notin> set evs \<longrightarrow>
        render_options props (run cf proto props evs (initial_world uref fid :: 'e world))
          (asc ''readOnly'') = Some (VBool True))
   \<and> (\<not> isSynced (w :: 'e world) \<longrightarrow>
        render_options props w (asc ''readOnly'') = Some (VBool True))
   \<and> (session w \<noteq> None \<longrightarrow>
        isSynced (on_sync props True w)
        \<and> render_options props (on_sync props True w)
            = (case options props of None \<Rightarrow> Map.empty | Some m \<Rightarrow> m)
        \<and> render_options props (on_sync props True w) (asc ''readOnly'')
            = (case options props of None \<Rightarrow> None | Some m \<Rightarrow> m (asc ''readOnly'')))"
proof -
  have i: "\<not> isSynced (initial_world uref fid :: 'e world)"
    by (simp add: initial_world_def)
  have r: "Sync True \<notin> set evs \<longrightarrow>
        render_options props (run cf proto props evs (initial_world uref fid :: 'e world))
          (asc ''readOnly'') = Some (VBool True)"
    using not_synced_run [OF i, of evs cf proto props]
    by (simp add: render_options_def editorOptions_def)
  show ?thesis
    using i r
    by (auto simp: render_options_def editorOptions_def on_sync_def
        split: option.splits prod.splits)
qed

theorem readOnly_until_synced_witness:
  "Sync True \<notin> set [Mounted (), RunEffect, Status connecting, Sync False]
   \<and> render_options sample_props
        (run sample_color (asc ''https:'') sample_props
           [Mounted (), RunEffect, Status connecting, Sync False]
           (initial_world (Some \<lparr>segments = [asc ''users'', asc ''u1'']\<rparr>) (Some (asc ''-Mabc''))))
        (asc ''readOnly'') = Some (VBool True)
   \<and> \<not> isSynced sample_world
   \<and> render_options sample_props sample_world (asc ''readOnly'') = Some (VBool True)
   \<and> session sample_live \<noteq> None
   \<and> isSynced (on_sync sample_props True sample_live)
   \<and> render_options sample_props (on_sync sample_props True sample_live) (asc ''readOnly'') = None"
  using readOnly_until_synced [where w = sample_world and props = sample_props
      and evs = "[Mounted (), RunEffect, Status connecting, Sync False]"
      and uref = "Some \<lparr>segments = [asc ''users'', asc ''u1'']\<rparr>" and fid = "Some (asc ''-Mabc'')"
      and cf = sample_color and proto = "asc ''https:''"]
    readOnly_until_synced [where w = sample_live and props = sample_props and evs = "[]"
      and uref = None and fid = None] sample_live_session
  by (simp add: sample_world_def initial_world_def sample_props_def asc_def)

section \<open>Session identifiers\<close>

lemma mkDocumentId_inj: "mkDocumentId fid (child r k1) = mkDocumentId fid (child r k2) \<Longrightarrow> k1 = k2"
  by (simp add: mkDocumentId_def child_def key_def tpl_def)

text \<open>
  C2. When the effect's guard passes, the session it opens has the identifier
  \<open>fileId + '.' + firebaseRef.key\<close>, and a session opened by the effect never has another
  identifier. For one file, distinct child keys give distinct identifiers (so the four
  panes \<open>editor-cpp\<close>, \<open>editor-java\<close>, \<open>editor-py\<close> and \<open>input\<close> are four sessions), and
  references with the same key give the same identifier.
\<close>

theorem session_identifier:
  "(firebaseRef props = Some ref \<and> editor w = Some ed \<and> userRef w = Some uref
      \<and> fileId w = Some fid \<and> fid \<noteq> [] \<longrightarrow>
      (\<exists>s. session (useEffect cf proto props w) = Some s
           \<and> documentId s = fid @ asc ''.'' @ tpl (key ref)))
   \<and> (session (w :: 'e world) = None \<and> session (useEffect cf proto props w) = Some s \<longrightarrow>
        (\<exists>ref fid. firebaseRef props = Some ref \<and> fileId w = Some fid
           \<and> documentId s = fid @ asc ''.'' @ tpl (key ref)))
   \<and> (k1 \<noteq> k2 \<longrightarrow> mkDocumentId fid (child r k1) \<noteq> mkDocumentId fid (child r k2))
   \<and> distinct (map (\<lambda>k. mkDocumentId fid (child r k))
        [asc ''editor-cpp'', asc ''editor-java'', asc ''editor-py'', asc ''input''])
   \<and> (key ref1 = key ref2 \<longrightarrow> mkDocumentId fid ref1 = mkDocumentId fid ref2)"
proof (intro conjI impI)
  assume "firebaseRef props = Some ref \<and> editor w = Some ed \<and> userRef w = Some uref
      \<and> fileId w = Some fid \<and> fid \<noteq> []"
  then show "\<exists>s. session (useEffect cf proto props w) = Some s
           \<and> documentId s = fid @ asc ''.'' @ tpl (key ref)"
    by (simp add: useEffect_def mkDocumentId_def Let_def)
next
  assume "session w = None \<and> session (useEffect cf proto props w) = Some s"
  then show "\<exists>ref fid. firebaseRef props = Some ref \<and> fileId w = Some fid
           \<and> documentId s = fid @ asc ''.'' @ tpl (key ref)"
    by (auto simp: useEffect_def mkDocumentId_def Let_def split: option.splits if_splits)
next
  assume "k1 \<noteq> k2"
  then show "mkDocumentId fid (child r k1) \<noteq> mkDocumentId fid (child r k2)"
    using mkDocumentId_inj by blast
next
  show "distinct (map (\<lambda>k. mkDocumentId fid (child r k))
        [asc ''editor-cpp'', asc ''editor-java'', asc ''editor-py'', asc ''input''])"
    by (simp add: mkDocumentId_def child_def key_def tpl_def asc_def)
next
  assume "key ref1 = key ref2"
  then show "mkDocumentId fid ref1 = mkDocumentId fid ref2"
    by (simp add: mkDocumentId_def)
qed

theorem session_identifier_witness:
  "firebaseRef sample_props = Some \<lparr>segments = [asc ''-Mabc'', asc ''editor-cpp'']\<rparr>
   \<and> editor sample_world = Some () \<and> fileId sample_world = Some (asc ''-Mabc'')
   \<and> session sample_world = None
   \<and> (\<exists>s. session sample_live = Some s \<and> documentId s = asc ''-Mabc.editor-cpp'')
   \<and> asc ''editor-cpp'' \<noteq> asc ''input''
   \<and> mkDocumentId (asc ''-Mabc'') (child \<lparr>segments = [asc ''-Mabc'']\<rparr> (asc ''editor-cpp''))
       \<noteq> mkDocumentId (asc ''-Mabc'') (child \<lparr>segments = [asc ''-Mabc'']\<rparr> (asc ''input''))
   \<and> key \<lparr>segments = [asc ''a'', asc ''input'']\<rparr> = key \<lparr>segments = [asc ''b'', asc ''input'']\<rparr>
   \<and> mkDocumentId (asc ''-Mabc'') \<lparr>segments = [asc ''a'', asc ''input'']\<rparr>
       = mkDocumentId (asc ''-Mabc'') \<lparr>segments = [asc ''b'', asc ''input'']\<rparr>"
  using session_identifier [of sample_props "\<lparr>segments = [asc ''-Mabc'', asc ''editor-cpp'']\<rparr>"
      sample_world "()" "\<lparr>segments = [asc ''users'', asc ''u1'']\<rparr>" "asc ''-Mabc''"
      sample_color "asc ''https:''" undefined "asc ''editor-cpp''" "asc ''input''"
      "\<lparr>segments = [asc ''-Mabc'']\<rparr>"
      "\<lparr>segments = [asc ''a'', asc ''input'']\<rparr>" "\<lparr>segments = [asc ''b'', asc ''input'']\<rparr>"]
  by (simp add: sample_props_def sample_world_def sample_live_def initial_world_def key_def
      tpl_def asc_def)

section \<open>Initialising the document once\<close>

lemma sync_document_initialized:
  "initialized s \<Longrightarrow> sync_document dv b s = (s, [])"
  by (simp add: sync_document_def initialized_def)

lemma sync_document_sets_flag: "initialized (fst (sync_document dv True s))"
  by (simp add: sync_document_def initialized_def)

lemma doc_step_initialized:
  "initialized s \<Longrightarrow> initialized (fst (doc_step dv e s)) \<and> snd (doc_step dv e s) = []"
  by (cases e) (auto simp: sync_document_initialized initialized_def)

lemma doc_run_initialized:
  "initialized s \<Longrightarrow> filter is_TextInsert (snd (doc_run dv evs s)) = []"
proof (induction evs arbitrary: s)
  case Nil
  then show ?case by simp
next
  case (Cons e es)
  from Cons.prems have "initialized (fst (doc_step dv e s))" and "snd (doc_step dv e s) = []"
    using doc_step_initialized by blast+
  with Cons.IH [of "fst (doc_step dv e s)"] show ?case
    by (simp add: split_beta)
qed

lemma doc_step_inserts:
  "filter is_TextInsert (snd (doc_step dv e s)) = [] \<or>
   (length (filter is_TextInsert (snd (doc_step dv e s))) = 1 \<and> initialized (fst (doc_step dv e s)))"
  by (cases e) (auto simp: sync_document_def initialized_def)

lemma doc_run_inserts: "length (filter is_TextInsert (snd (doc_run dv evs s))) \<le> 1"
proof (induction evs arbitrary: s)
  case Nil
  then show ?case by simp
next
  case (Cons e es)
  show ?case
    using doc_step_inserts [of dv e s] Cons.IH [of "fst (doc_step dv e s)"]
      doc_run_initialized [of "fst (doc_step dv e s)" dv es]
    by (auto simp: split_beta)
qed

text \<open>
  At one replica the guard works. Over any sequence of sync events and updates at one
  replica the default content is inserted there at most once: a sync event inserts
  \<open>defaultValue\<close> at offset 0 exactly when it reports \<open>isSynced = true\<close> and the
  \<open>isInitialized\<close> entry of the replica is unset, the entry is set before the insertion,
  it is set after every successful sync, and once it is set no later event at this
  replica inserts the default content.
\<close>

lemma replica_inserts_once:
  "length (filter is_TextInsert (snd (doc_run dv evs s))) \<le> 1
   \<and> sync_document dv b s =
       (if b \<and> \<not> initialized s
        then (s\<lparr>isInitializedMap := (isInitializedMap s)(asc ''isInitialized'' \<mapsto> True),
                monacoText := (case dv of None \<Rightarrow> [] | Some d \<Rightarrow> d) @ monacoText s\<rparr>,
              [MapSet (asc ''isInitialized'') True,
               TextInsert 0 (case dv of None \<Rightarrow> [] | Some d \<Rightarrow> d)])
        else (s, []))
   \<and> initialized (fst (sync_document dv True s))
   \<and> (initialized s \<longrightarrow> filter is_TextInsert (snd (doc_run dv evs s)) = [])"
  using doc_run_inserts [of dv evs s] doc_run_initialized [of s dv evs]
    sync_document_sets_flag [of dv s]
  by (simp add: sync_document_def initialized_def)

text \<open>
  When the second client syncs after the first client's operations have reached it, it
  finds the entry set and inserts nothing: the shared document gets the default content
  once.
\<close>

lemma clients_in_turn_insert_once:
  "length (filter is_TextInsert (operations
      (net_run (Some d) [SyncAt ClientA True, DeliverTo ClientB, SyncAt ClientB True,
         DeliverTo ClientA] (new_network sA sB)))) = 1
   \<and> monacoText (replicaA
      (net_run (Some d) [SyncAt ClientA True, DeliverTo ClientB, SyncAt ClientB True,
         DeliverTo ClientA] (new_network sA sB))) = d
   \<and> monacoText (replicaB
      (net_run (Some d) [SyncAt ClientA True, DeliverTo ClientB, SyncAt ClientB True,
         DeliverTo ClientA] (new_network sA sB))) = d"
  by (simp add: new_network_def sync_document_def deliver_def)

text \<open>
  C4. The default content is to be inserted into the shared text at most once for each
  shared document. The code does not keep to this: each client reads the
  \<open>isInitialized\<close> entry in its own replica at its own \<open>sync\<close> event. When two clients
  sync a new document before the operations of either have reached the other, both find
  the entry unset, both set it and both insert the default content: two insertions are
  made on the shared document, and once the operations are exchanged the text of either
  replica is the default content twice.
\<close>

theorem default_inserted_twice:
  "length (filter is_TextInsert (operations
      (net_run (Some d) [SyncAt ClientA True, SyncAt ClientB True, DeliverTo ClientA,
         DeliverTo ClientB] (new_network sA sB)))) = 2
   \<and> monacoText (replicaA
      (net_run (Some d) [SyncAt ClientA True, SyncAt ClientB True, DeliverTo ClientA,
         DeliverTo ClientB] (new_network sA sB))) = d @ d
   \<and> monacoText (replicaB
      (net_run (Some d) [SyncAt ClientA True, SyncAt ClientB True, DeliverTo ClientA,
         DeliverTo ClientB] (new_network sA sB))) = d @ d"
  by (simp add: new_network_def sync_document_def deliver_def)

section \<open>Presence styling\<close>

lemma unat_codeUnit: "n < 65536 \<Longrightarrow> unat (codeUnit n) = n"
  by (simp add: codeUnit_def unat_of_nat)


















lemma body_insertAdjacentHTML:
  "body (insertAdjacentHTML html w) = body w @ parseFragment html"
  by (simp add: insertAdjacentHTML_def)

lemma body_add_styles:
  "body (add_styles st us w) = body w @ concat (map (\<lambda>u. parseFragment (styleHTML st u)) us)"
  by (induction us arbitrary: w) (simp_all add: insertAdjacentHTML_def)











section \<open>Session lifecycle\<close>

text \<open>
  C6. When the guard passes the effect makes its calls in this order: the Y.Doc is
  created, the websocket provider is constructed for the relay and the document id, the
  local cursor colour is set, the document's \<open>monaco\<close> text is bound to the editor, and
  the awareness, status and sync handlers are attached. The cleanup resets the connection
  status to \<open>disconnected\<close> and the sync state to unsynced, then destroys the document
  and the provider.
\<close>

theorem session_lifecycle:
  "(firebaseRef props = Some ref \<and> editor w = Some ed \<and> userRef w = Some uref
      \<and> fileId w = Some fid \<and> fid \<noteq> [] \<longrightarrow>
      trace (useEffect cf proto props w) =
        trace w @ (if affectsLoading (path props) then [SetLoading False] else [])
        @ [NewYDoc,
           NewWebsocketProvider (WEBSOCKET_SERVER proto) (fid @ asc ''.'' @ tpl (key ref)),
           SetLocalStateField (asc ''cursorColor'') (cf (key uref)),
           GetText (asc ''monaco''),
           NewMonacoBinding,
           AwarenessOn (asc ''change''),
           ProviderOn (asc ''status''),
           ProviderOn (asc ''sync'')]
      \<and> (\<exists>s. session (useEffect cf proto props w) = Some s \<and> monacoBinding s
            \<and> \<not> ydocumentDestroyed s \<and> \<not> providerDestroyed s
            \<and> awarenessHandlers s = [asc ''change'']))
   \<and> (session w = Some s \<longrightarrow>
        connectionStatus (cleanup w) = disconnected
        \<and> \<not> isSynced (cleanup w)
        \<and> session (cleanup w) = Some (s\<lparr>ydocumentDestroyed := True, providerDestroyed := True\<rparr>)
        \<and> \<not> live (cleanup w)
        \<and> trace (cleanup w) =
            trace w @ [SetConnectionStatus disconnected, SetIsSynced False, YDocDestroy, ProviderDestroy])"
  by (auto simp: useEffect_def cleanup_def live_def mkDocumentId_def Let_def)

theorem session_lifecycle_witness:
  "firebaseRef sample_props = Some \<lparr>segments = [asc ''-Mabc'', asc ''editor-cpp'']\<rparr>
   \<and> editor sample_world = Some ()
   \<and> trace sample_live =
        [NewYDoc,
         NewWebsocketProvider (asc ''wss://localhost:1234'') (asc ''-Mabc.editor-cpp''),
         SetLocalStateField (asc ''cursorColor'') (asc ''#u1''),
         GetText (asc ''monaco''),
         NewMonacoBinding,
         AwarenessOn (asc ''change''),
         ProviderOn (asc ''status''),
         ProviderOn (asc ''sync'')]
   \<and> session (on_sync sample_props True sample_live) \<noteq> None
   \<and> connectionStatus (cleanup (on_sync sample_props True sample_live)) = disconnected
   \<and> \<not> isSynced (cleanup (on_sync sample_props True sample_live))
   \<and> \<not> live (cleanup (on_sync sample_props True sample_live))"
  using session_lifecycle [where props = sample_props and w = sample_world
      and ref = "\<lparr>segments = [asc ''-Mabc'', asc ''editor-cpp'']\<rparr>" and ed = "()"
      and uref = "\<lparr>segments = [asc ''users'', asc ''u1'']\<rparr>" and fid = "asc ''-Mabc''"
      and cf = sample_color and proto = "asc ''https:''"]
    session_lifecycle [where w = "on_sync sample_props True sample_live"
      and s = "the (session (on_sync sample_props True sample_live))"]
  by (simp add: sample_props_def sample_world_def sample_live_def sample_color_def
      initial_world_def useEffect_def on_sync_def sync_document_def Let_def key_def tpl_def
      affectsLoading_def truthy_def WEBSOCKET_SERVER_def asc_def)

section \<open>The awareness handler and the body\<close>

lemma body_step: "\<exists>ys. body (step cf proto props e w) = body w @ ys"
  by (cases e)
    (auto simp: useEffect_def cleanup_def on_status_def on_sync_def on_change_def body_add_styles
      Let_def split: option.splits prod.splits)

lemma body_run: "\<exists>ys. body (run cf proto props evs w) = body w @ ys"
proof (induction evs arbitrary: w)
  case Nil
  then show ?case by simp
next
  case (Cons e es)
  obtain ys where 1: "body (step cf proto props e w) = body w @ ys"
    using body_step by blast
  obtain zs where 2: "body (run cf proto props es (step cf proto props e w)) = body (step cf proto props e w) @ zs"
    using Cons.IH by blast
  show ?case using 1 2 by simp
qed

text \<open>
  C10. The awareness handler changes nothing when \<open>added\<close> is empty, whatever
  \<open>updated\<close> and \<open>removed\<close> hold; and no event of the component removes or alters a child
  of the body: after any sequence of events the body is the old body with further
  children appended, so a style element stays once inserted.
\<close>

theorem change_without_added_keeps_body:
  "on_change st [] updated removed w = w
   \<and> body (on_change st [] updated removed w) = body w
   \<and> (\<exists>ys. body (run cf proto props evs w) = body w @ ys)"
  using body_run [of cf proto props evs w] by (simp add: on_change_def)

section \<open>Round trip of \<open>encode\<close> and \<open>decode\<close>\<close>

subsection \<open>Code units and hexadecimal digits\<close>

lemma codeUnit_unat: "codeUnit (unat c) = c"
  by (simp add: codeUnit_def)

lemma unat_lt_65536: "unat (c :: 16 word) < 65536"
  using unsigned_less [of c, where ?'a = nat] by simp

lemma unat_hexDigit: "d < 16 \<Longrightarrow> unat (hexDigit d) = (if d < 10 then 48 + d else 55 + d)"
  by (simp add: hexDigit_def unat_codeUnit)

lemma hexValue_hexDigit: "d < 16 \<Longrightarrow> hexValue (hexDigit d) = Some d"
  by (simp add: hexValue_def unat_hexDigit Let_def)

lemma hexDigit_not_u: "d < 16 \<Longrightarrow> hexDigit d \<noteq> 0x75"
proof
  assume d: "d < 16" and "hexDigit d = 0x75"
  then have "unat (hexDigit d) = unat (0x75 :: 16 word)" by simp
  with d show False by (simp add: unat_hexDigit split: if_splits)
qed

lemma hexOctet_hexDigits:
  "b < 256 \<Longrightarrow> hexOctet (hexDigit (b div 16) # hexDigit (b mod 16) # rest) = Some b"
proof -
  assume b: "b < 256"
  then have "b div 16 < 16" by simp
  moreover have "b mod 16 < 16" by simp
  ultimately show ?thesis by (simp add: hexValue_hexDigit)
qed

lemma unescape_literal: "c \<noteq> 0x25 \<Longrightarrow> unescape (c # rest) = c # unescape rest"
  by simp

lemma unescape_percentEncode:
  assumes "b < 256"
  shows "unescape (percentEncode b @ rest) = codeUnit b # unescape rest"
proof -
  have "b div 16 < 16" using assms by simp
  then have "hexDigit (b div 16) \<noteq> 0x75" by (rule hexDigit_not_u)
  then show ?thesis
    using hexOctet_hexDigits [OF assms, of rest]
    by (simp add: percentEncode_def del: hexOctet.simps)
qed

declare unescape.simps [simp del]

lemma unescape_percentEncode_list:
  "\<forall>b \<in> set bs. b < 256 \<Longrightarrow>
   unescape (concat (map percentEncode bs) @ rest) = map codeUnit bs @ unescape rest"
  by (induction bs) (simp_all add: unescape_percentEncode)

lemma utf8Encode_bytes: "cp < 0x110000 \<Longrightarrow> \<forall>b \<in> set (utf8Encode cp). b < 256"
  by (auto simp: utf8Encode_def)

lemma surrogatePair_bounds:
  "isLeadSurrogate a \<Longrightarrow> isTrailSurrogate b \<Longrightarrow>
   0x10000 \<le> surrogatePair a b \<and> surrogatePair a b < 0x110000"
  by (auto simp: isLeadSurrogate_def isTrailSurrogate_def surrogatePair_def)

lemma uriUnescaped_ascii: "uriUnescaped n \<Longrightarrow> n < 128 \<and> n \<noteq> 37"
  by (auto simp: uriUnescaped_def isAlnum_def)

lemma prepend_Inr [simp]: "prepend xs (Inr ys) = Inr (xs @ ys)"
  by (simp add: prepend_def)

lemma prepend_Inl [simp]: "prepend xs (Inl e) = Inl e"
  by (simp add: prepend_def)

lemma not_percent: "unat c \<noteq> 37 \<Longrightarrow> c \<noteq> (0x25 :: 16 word)"
  by auto

lemma Encode_unescape:
  "wellFormed s \<Longrightarrow>
   \<exists>u. Encode uriUnescaped s = Inr u \<and> unescape u = map codeUnit (utf8Bytes s)"
proof (induction s rule: wellFormed.induct)
  case 1
  show ?case by (simp add: unescape.simps)
next
  case (2 c cs)
  show ?case
  proof (cases "isLeadSurrogate (unat c)")
    case True
    with "2.prems" obtain d ds where cs: "cs = d # ds" and d: "isTrailSurrogate (unat d)"
      and wf: "wellFormed ds"
      by (auto split: list.splits)
    from "2.IH"(1) [OF True cs wf] obtain u where
      u: "Encode uriUnescaped ds = Inr u" "unescape u = map codeUnit (utf8Bytes ds)"
      by blast
    have nu: "\<not> uriUnescaped (unat c)"
      using True uriUnescaped_ascii [of "unat c"] by (auto simp: isLeadSurrogate_def)
    have "\<forall>b \<in> set (utf8Encode (surrogatePair (unat c) (unat d))). b < 256"
      using surrogatePair_bounds [OF True d] by (intro utf8Encode_bytes) simp
    then show ?thesis
      using True cs d u nu by (simp add: unescape_percentEncode_list)
  next
    case False
    with "2.prems" have nt: "\<not> isTrailSurrogate (unat c)" and wf: "wellFormed cs"
      by auto
    from "2.IH"(2) [OF False wf] obtain u where
      u: "Encode uriUnescaped cs = Inr u" "unescape u = map codeUnit (utf8Bytes cs)"
      by blast
    show ?thesis
    proof (cases "uriUnescaped (unat c)")
      case True
      then have a: "unat c < 128" "unat c \<noteq> 37"
        using uriUnescaped_ascii by blast+
      then have "c \<noteq> 0x25" by auto
      then have "unescape (c # u) = c # unescape u"
        by (rule unescape_literal)
      moreover have "utf8Encode (unat c) = [unat c]"
        using a by (simp add: utf8Encode_def)
      ultimately show ?thesis
        using True False u by (simp add: codeUnit_unat)
    next
      case nu: False
      have "\<forall>b \<in> set (utf8Encode (unat c)). b < 256"
        using unat_lt_65536 [of c] by (intro utf8Encode_bytes) simp
      then show ?thesis
        using nu False nt u by (simp add: unescape_percentEncode_list)
    qed
  qed
qed

lemma unat_base64Char:
  "i < 64 \<Longrightarrow> unat (base64Char i) =
     (if i < 26 then 65 + i else if i < 52 then 71 + i else if i < 62 then i - 4
      else if i = 62 then 43 else 47)"
  by (simp add: base64Char_def unat_codeUnit)

lemma base64Value_base64Char: "i < 64 \<Longrightarrow> base64Value (base64Char i) = Some i"
  by (auto simp: base64Value_def unat_base64Char Let_def)

lemma unat_eq_numeral: "c = (numeral k :: 16 word) \<Longrightarrow> unat c = unat (numeral k :: 16 word)"
  by simp

lemma base64Char_not_pad: "i < 64 \<Longrightarrow> base64Char i \<noteq> 0x3D"
proof
  assume i: "i < 64" and "base64Char i = 0x3D"
  then have "unat (base64Char i) = unat (0x3D :: 16 word)" by simp
  with i show False by (simp add: unat_base64Char split: if_splits)
qed

lemma base64Char_not_space: "i < 64 \<Longrightarrow> \<not> isAsciiWhitespace (base64Char i)"
proof
  assume i: "i < 64" and "isAsciiWhitespace (base64Char i)"
  then have "unat (base64Char i) \<in> {9, 10, 12, 13, 32}"
    by (auto simp: isAsciiWhitespace_def)
  with i show False by (auto simp: unat_base64Char split: if_splits)
qed

lemma pad_not_space: "\<not> isAsciiWhitespace 0x3D"
  by (simp add: isAsciiWhitespace_def)

lemma sextets_lt: "\<forall>b \<in> set bs. b < 256 \<Longrightarrow> \<forall>v \<in> set (sextets bs). v < 64"
proof (induction bs rule: sextets.induct)
  case (4 a b c rest)
  then have "a < 256" "b < 256" "c < 256" by simp_all
  moreover have "\<forall>v \<in> set (sextets rest). v < 64" using 4 by simp
  ultimately show ?case by (auto intro: less_mult_imp_div_less)
qed (auto intro: less_mult_imp_div_less)

lemma length_sextets: "length (sextets bs) mod 4 \<noteq> 1"
  by (induction bs rule: sextets.induct) simp_all

lemma length_base64Encode: "length (base64Encode bs) mod 4 = 0"
  by (induction bs rule: base64Encode.induct) simp_all

lemma base64Encode_nonempty: "bs \<noteq> [] \<Longrightarrow> 4 \<le> length (base64Encode bs)"
  by (induction bs rule: base64Encode.induct) simp_all

lemma base64Decode_sextets: "\<forall>b \<in> set bs. b < 256 \<Longrightarrow> base64Decode (sextets bs) = bs"
proof (induction bs rule: sextets.induct)
  case 1
  show ?case by simp
next
  case (2 a)
  then show ?case by simp
next
  case (3 a b)
  then have "a < 256" "b < 256" by simp_all
  then show ?case by simp
next
  case (4 a b c rest)
  then have "a < 256" "b < 256" "c < 256" and IH: "base64Decode (sextets rest) = rest"
    by simp_all
  then show ?case by simp
qed

lemma div4_lt: "a < 256 \<Longrightarrow> a div 4 < (64::nat)"
  by simp

lemma sext2_lt: "b < 256 \<Longrightarrow> a mod 4 * 16 + b div 16 < (64::nat)"
proof -
  assume "b < 256"
  then have "b div 16 < 16" by simp
  moreover have "a mod 4 < 4" by simp
  ultimately show ?thesis by linarith
qed

lemma sext3_lt: "c < 256 \<Longrightarrow> b mod 16 * 4 + c div 64 < (64::nat)"
proof -
  assume "c < 256"
  then have "c div 64 < 4" by simp
  moreover have "b mod 16 < 16" by simp
  ultimately show ?thesis by linarith
qed

lemma sext2'_lt: "a mod 4 * 16 < (64::nat)"
proof -
  have "a mod 4 < 4" by simp
  then show ?thesis by linarith
qed

lemma sext3'_lt: "b mod 16 * 4 < (64::nat)"
proof -
  have "b mod 16 < 16" by simp
  then show ?thesis by linarith
qed

lemmas sext_lt = div4_lt sext2_lt sext3_lt sext2'_lt sext3'_lt

lemma filter_base64Encode:
  "\<forall>b \<in> set bs. b < 256 \<Longrightarrow>
   filter (\<lambda>c. \<not> isAsciiWhitespace c) (base64Encode bs) = base64Encode bs"
proof (induction bs rule: base64Encode.induct)
  case 1
  show ?case by simp
next
  case (2 a)
  then show ?case by (simp add: base64Char_not_space pad_not_space sext_lt)
next
  case (3 a b)
  then show ?case by (simp add: base64Char_not_space pad_not_space sext_lt)
next
  case (4 a b c rest)
  then show ?case by (simp add: base64Char_not_space sext_lt)
qed

lemma stripPadding_append:
  assumes "length xs mod 4 = 0" and "2 \<le> length ys"
  shows "stripPadding (xs @ ys) = xs @ stripPadding ys"
proof -
  from assms(2) have ne: "ys \<noteq> []" and ne2: "butlast ys \<noteq> []"
    by (auto simp: butlast_conv_take)
  have len: "(length xs + length ys) mod 4 = length ys mod 4"
    using assms(1) by (simp add: mod_add_left_eq [symmetric])
  show ?thesis
    using ne ne2 len by (simp add: stripPadding_def butlast_append)
qed

lemma stripPadding_base64Encode:
  "\<forall>b \<in> set bs. b < 256 \<Longrightarrow>
   stripPadding (base64Encode bs) = map base64Char (sextets bs)"
proof (induction bs rule: base64Encode.induct)
  case 1
  show ?case by (simp add: stripPadding_def)
next
  case (2 a)
  show ?case by (simp add: stripPadding_def)
next
  case (3 a b)
  then show ?case by (simp add: stripPadding_def base64Char_not_pad sext_lt)
next
  case (4 a b c rest)
  then have IH: "stripPadding (base64Encode rest) = map base64Char (sextets rest)"
    by simp
  let ?q = "[base64Char (a div 4), base64Char (a mod 4 * 16 + b div 16),
             base64Char (b mod 16 * 4 + c div 64), base64Char (c mod 64)]"
  show ?case
  proof (cases "rest = []")
    case True
    have "base64Char (c mod 64) \<noteq> 0x3D" by (rule base64Char_not_pad) simp
    then show ?thesis using True by (simp add: stripPadding_def)
  next
    case False
    then have "2 \<le> length (base64Encode rest)"
      using base64Encode_nonempty [of rest] by simp
    then have "stripPadding (?q @ base64Encode rest) = ?q @ stripPadding (base64Encode rest)"
      by (intro stripPadding_append) simp_all
    then show ?thesis using IH by simp
  qed
qed

lemma those_base64Value:
  "\<forall>v \<in> set vs. v < 64 \<Longrightarrow> those (map base64Value (map base64Char vs)) = Some vs"
  by (induction vs) (simp_all add: base64Value_base64Char)

lemma atob_base64Encode:
  assumes "\<forall>b \<in> set bs. b < 256"
  shows "atob (base64Encode bs) = Inr (map codeUnit bs)"
proof -
  have "\<forall>v \<in> set (sextets bs). v < 64" using assms by (rule sextets_lt)
  then have "those (map base64Value (map base64Char (sextets bs))) = Some (sextets bs)"
    by (rule those_base64Value)
  then show ?thesis
    using assms length_sextets [of bs]
    by (simp add: atob_def filter_base64Encode stripPadding_base64Encode base64Decode_sextets)
qed

lemma btoa_bytes:
  assumes "\<forall>b \<in> set bs. b < 256"
  shows "btoa (map codeUnit bs) = Inr (base64Encode bs)"
proof -
  have "map unat (map codeUnit bs) = bs"
    using assms by (induction bs) (simp_all add: unat_codeUnit)
  moreover have "\<not> list_ex (\<lambda>c. 255 < unat c) (map codeUnit bs)"
    using assms by (induction bs) (simp_all add: unat_codeUnit)
  ultimately show ?thesis by (simp add: btoa_def)
qed

declare Decode.simps [simp del]

lemma Decode_Nil: "Decode [] = Inr []"
  by (simp add: Decode.simps)

lemma Decode_literal: "c \<noteq> 0x25 \<Longrightarrow> Decode (c # rest) = prepend [c] (Decode rest)"
  by (simp add: Decode.simps)

lemma Decode_ascii_percent:
  assumes "b < 128"
  shows "Decode (percentEncode b @ rest) = prepend [codeUnit b] (Decode rest)"
proof -
  have "b < 256" using assms by simp
  then have "hexOctet (hexDigit (b div 16) # hexDigit (b mod 16) # rest) = Some b"
    by (rule hexOctet_hexDigits)
  moreover have "leadingOnes b = 0" using assms by (simp add: leadingOnes_def)
  ultimately show ?thesis
    by (simp add: percentEncode_def Decode.simps del: hexOctet.simps)
qed

lemma percentEncode_append:
  "percentEncode b @ r = 0x25 # hexDigit (b div 16) # hexDigit (b mod 16) # r"
  by (simp add: percentEncode_def)

lemma continuationBytes_percentEncode:
  "\<forall>b \<in> set bs. b < 256 \<Longrightarrow>
   continuationBytes (length bs) (concat (map percentEncode bs) @ rest) = Some bs"
proof (induction bs)
  case Nil
  show ?case by simp
next
  case (Cons b bs)
  then have "b < 256" and IH: "continuationBytes (length bs) (concat (map percentEncode bs) @ rest) = Some bs"
    by simp_all
  have "concat (map percentEncode (b # bs)) @ rest =
        0x25 # hexDigit (b div 16) # hexDigit (b mod 16) # (concat (map percentEncode bs) @ rest)"
    by (simp add: percentEncode_append)
  with hexOctet_hexDigits [OF \<open>b < 256\<close>, of "[]"] IH show ?case
    by (simp del: hexOctet.simps)
qed

lemma drop_percentEncode:
  "drop (3 * length bs) (concat (map percentEncode bs) @ rest) = rest"
proof (induction bs)
  case Nil
  show ?case by simp
next
  case (Cons b bs)
  have "concat (map percentEncode (b # bs)) @ rest =
        0x25 # hexDigit (b div 16) # hexDigit (b mod 16) # (concat (map percentEncode bs) @ rest)"
    by (simp add: percentEncode_append)
  moreover have "3 * length (b # bs) = Suc (Suc (Suc (3 * length bs)))" by simp
  ultimately show ?case using Cons.IH by (simp only: drop_Suc_Cons)
qed

lemma Decode_multibyte:
  assumes b0: "b0 < 256" and bs: "\<forall>b \<in> set bs. b < 256"
    and n: "leadingOnes b0 = Suc (length bs)" and len: "bs \<noteq> []" "length bs \<le> 3"
    and V: "utf8Decode (b0 # bs) = Some V"
  shows "Decode (concat (map percentEncode (b0 # bs)) @ rest) = prepend (utf16Encode V) (Decode rest)"
proof -
  let ?tail = "concat (map percentEncode bs) @ rest"
  let ?cs = "hexDigit (b0 div 16) # hexDigit (b0 mod 16) # ?tail"
  have e: "concat (map percentEncode (b0 # bs)) @ rest = 0x25 # ?cs"
    by (simp add: percentEncode_append)
  have h: "hexOctet ?cs = Some b0"
    using b0 by (rule hexOctet_hexDigits)
  have d2: "drop 2 ?cs = ?tail" by simp
  have c: "continuationBytes (leadingOnes b0 - 1) (drop 2 ?cs) = Some bs"
    unfolding d2 n using continuationBytes_percentEncode [OF bs] by simp
  have d: "drop (3 * (leadingOnes b0 - 1)) (drop 2 ?cs) = rest"
    unfolding d2 n using drop_percentEncode [of bs rest] by simp
  have l: "leadingOnes b0 \<noteq> 0" "\<not> (leadingOnes b0 = 1 \<or> 4 < leadingOnes b0)"
    using n len by (cases bs; simp)+
  have "Decode (0x25 # ?cs) = prepend (utf16Encode V) (Decode rest)"
    by (subst Decode.simps) (simp only: h c d l V option.case if_False not_not not_True_eq_False refl if_True)
  then show ?thesis by (simp only: e)
qed

lemma recompose3:
  "(n::nat) div 4096 * 4096 + n div 64 mod 64 * 64 + n mod 64 = n"
proof -
  have lin: "\<And>A B Q M. A * 64 + B = Q \<Longrightarrow> Q * 64 + M = n \<Longrightarrow> A * 4096 + B * 64 + M = n"
    by simp
  have d: "n div 4096 = n div 64 div 64" by (simp add: div_mult2_eq [symmetric])
  have "n div 64 div 64 * 64 + n div 64 mod 64 = n div 64" by simp
  moreover have "n div 64 * 64 + n mod 64 = n" by simp
  ultimately show ?thesis unfolding d by (rule lin)
qed

lemma recompose4:
  "(n::nat) div 262144 * 262144 + n div 4096 mod 64 * 4096 + n div 64 mod 64 * 64 + n mod 64 = n"
proof -
  have lin: "\<And>A B C Q R M. A * 64 + B = Q \<Longrightarrow> Q * 64 + C = R \<Longrightarrow> R * 64 + M = n \<Longrightarrow>
      A * 262144 + B * 4096 + C * 64 + M = n"
    by simp
  have d1: "n div 4096 = n div 64 div 64" by (simp add: div_mult2_eq [symmetric])
  have d2: "n div 262144 = n div 64 div 64 div 64" by (simp add: div_mult2_eq [symmetric])
  have "n div 64 div 64 div 64 * 64 + n div 64 div 64 mod 64 = n div 64 div 64" by simp
  moreover have "n div 64 div 64 * 64 + n div 64 mod 64 = n div 64" by simp
  moreover have "n div 64 * 64 + n mod 64 = n" by simp
  ultimately show ?thesis unfolding d1 d2 by (rule lin)
qed

lemma utf8Decode_two:
  assumes "b0 = 0xC0 + d" "d < 32" "b1 = 0x80 + m" "m < 64" "0x80 \<le> d * 64 + m"
  shows "utf8Decode [b0, b1] = Some (d * 64 + m)"
  using assms by (simp add: isContinuation_def)

lemma utf8Decode_three:
  assumes "b0 = 0xE0 + d" "d < 16" "b1 = 0x80 + m1" "m1 < 64" "b2 = 0x80 + m" "m < 64"
    and "0x800 \<le> d * 4096 + m1 * 64 + m"
    and "\<not> (0xD800 \<le> d * 4096 + m1 * 64 + m \<and> d * 4096 + m1 * 64 + m \<le> 0xDFFF)"
  shows "utf8Decode [b0, b1, b2] = Some (d * 4096 + m1 * 64 + m)"
  using assms by (simp add: isContinuation_def)

lemma utf8Decode_four:
  assumes "b0 = 0xF0 + d" "d < 8" "b1 = 0x80 + m2" "m2 < 64" "b2 = 0x80 + m1" "m1 < 64"
    and "b3 = 0x80 + m" "m < 64"
    and "0x10000 \<le> d * 262144 + m2 * 4096 + m1 * 64 + m"
    and "d * 262144 + m2 * 4096 + m1 * 64 + m \<le> 0x10FFFF"
  shows "utf8Decode [b0, b1, b2, b3] = Some (d * 262144 + m2 * 4096 + m1 * 64 + m)"
  using assms by (simp add: isContinuation_def)

lemma escapeUnescaped_ascii: "escapeUnescaped n \<Longrightarrow> n < 128 \<and> n \<noteq> 37"
  by (auto simp: escapeUnescaped_def isAlnum_def)

lemma escapeUnit_byte:
  "b < 256 \<Longrightarrow>
   escapeUnit (codeUnit b) = (if escapeUnescaped b then [codeUnit b] else percentEncode b)"
  by (simp add: escapeUnit_def unat_codeUnit Let_def)

lemma escape_append: "escape (xs @ ys) = escape xs @ escape ys"
  by (simp add: escape_def)

lemma escape_Cons: "escape (x # xs) = escapeUnit x @ escape xs"
  by (simp add: escape_def)

lemma escape_high_bytes:
  "\<forall>b \<in> set bs. 128 \<le> b \<and> b < 256 \<Longrightarrow> escape (map codeUnit bs) = concat (map percentEncode bs)"
proof (induction bs)
  case Nil
  show ?case by (simp add: escape_def)
next
  case (Cons b bs)
  then have b: "128 \<le> b" "b < 256" and IH: "escape (map codeUnit bs) = concat (map percentEncode bs)"
    by simp_all
  have "\<not> escapeUnescaped b" using b(1) escapeUnescaped_ascii [of b] by auto
  then show ?case using b IH by (simp add: escape_Cons escapeUnit_byte)
qed

lemma codeUnit_not_percent: "b < 65536 \<Longrightarrow> b \<noteq> 37 \<Longrightarrow> codeUnit b \<noteq> 0x25"
proof
  assume "b < 65536" "b \<noteq> 37" "codeUnit b = 0x25"
  then have "unat (codeUnit b) = unat (0x25 :: 16 word)" by simp
  with \<open>b < 65536\<close> \<open>b \<noteq> 37\<close> show False by (simp add: unat_codeUnit)
qed

lemma Decode_ascii:
  assumes "cp < 0x80"
  shows "Decode (escape (map codeUnit (utf8Encode cp)) @ rest) = prepend (utf16Encode cp) (Decode rest)"
proof -
  have e: "utf8Encode cp = [cp]" using assms by (simp add: utf8Encode_def)
  have u: "utf16Encode cp = [codeUnit cp]" using assms by (simp add: utf16Encode_def)
  have lt: "cp < 256" using assms by simp
  show ?thesis
  proof (cases "escapeUnescaped cp")
    case True
    then have "cp \<noteq> 37" using escapeUnescaped_ascii by blast
    then have "codeUnit cp \<noteq> 0x25" using assms by (intro codeUnit_not_percent) simp_all
    then have "Decode (codeUnit cp # rest) = prepend [codeUnit cp] (Decode rest)"
      by (rule Decode_literal)
    then show ?thesis using True lt by (simp add: e u escape_Cons escapeUnit_byte escape_def)
  next
    case False
    have "Decode (percentEncode cp @ rest) = prepend [codeUnit cp] (Decode rest)"
      using assms by (rule Decode_ascii_percent)
    then show ?thesis using False lt by (simp add: e u escape_Cons escapeUnit_byte escape_def)
  qed
qed

lemma cont_range: "m < 64 \<Longrightarrow> 128 \<le> 0x80 + m \<and> 0x80 + m < (256::nat)"
  by simp

lemma lead_range:
  "d < 32 \<Longrightarrow> 128 \<le> 0xC0 + d \<and> 0xC0 + d < (256::nat)"
  "d' < 16 \<Longrightarrow> 128 \<le> 0xE0 + d' \<and> 0xE0 + d' < (256::nat)"
  "d'' < 8 \<Longrightarrow> 128 \<le> 0xF0 + d'' \<and> 0xF0 + d'' < (256::nat)"
  by simp_all

lemma Decode_two:
  assumes "0x80 \<le> cp" "cp < 0x800"
  shows "Decode (escape (map codeUnit (utf8Encode cp)) @ rest) = prepend (utf16Encode cp) (Decode rest)"
proof -
  let ?b0 = "0xC0 + cp div 64" and ?b1 = "0x80 + cp mod 64"
  have d: "cp div 64 < 32" using assms by simp
  have m: "cp mod 64 < 64" by simp
  have e: "utf8Encode cp = [?b0, ?b1]" using assms by (simp add: utf8Encode_def)
  have r: "cp div 64 * 64 + cp mod 64 = cp" by simp
  have V: "utf8Decode (?b0 # [?b1]) = Some cp"
    using utf8Decode_two [OF refl d refl m] assms(1) unfolding r by simp
  have hi: "\<forall>b \<in> set [?b0, ?b1]. 128 \<le> b \<and> b < 256"
    using lead_range(1) [OF d] cont_range [OF m] by simp
  have "Decode (concat (map percentEncode (?b0 # [?b1])) @ rest) = prepend (utf16Encode cp) (Decode rest)"
  proof (rule Decode_multibyte [OF _ _ _ _ _ V])
    show "?b0 < 256" using d by simp
    show "\<forall>b \<in> set [?b1]. b < 256" using cont_range [OF m] by simp
    show "leadingOnes ?b0 = Suc (length [?b1])" using d by (simp add: leadingOnes_def)
  qed simp_all
  then show ?thesis unfolding e escape_high_bytes [OF hi] .
qed

lemma Decode_three:
  assumes "0x800 \<le> cp" "cp < 0x10000" "\<not> (0xD800 \<le> cp \<and> cp \<le> 0xDFFF)"
  shows "Decode (escape (map codeUnit (utf8Encode cp)) @ rest) = prepend (utf16Encode cp) (Decode rest)"
proof -
  let ?b0 = "0xE0 + cp div 4096" and ?b1 = "0x80 + cp div 64 mod 64" and ?b2 = "0x80 + cp mod 64"
  have d: "cp div 4096 < 16" using assms by simp
  have m1: "cp div 64 mod 64 < 64" by simp
  have m: "cp mod 64 < 64" by simp
  have e: "utf8Encode cp = [?b0, ?b1, ?b2]" using assms by (simp add: utf8Encode_def)
  note r = recompose3 [of cp]
  have V: "utf8Decode (?b0 # [?b1, ?b2]) = Some cp"
    using utf8Decode_three [OF refl d refl m1 refl m] assms unfolding r by simp
  have hi: "\<forall>b \<in> set [?b0, ?b1, ?b2]. 128 \<le> b \<and> b < 256"
    using lead_range(2) [OF d] cont_range [OF m1] cont_range [OF m] by simp
  have "Decode (concat (map percentEncode (?b0 # [?b1, ?b2])) @ rest) = prepend (utf16Encode cp) (Decode rest)"
  proof (rule Decode_multibyte [OF _ _ _ _ _ V])
    show "?b0 < 256" using d by simp
    show "\<forall>b \<in> set [?b1, ?b2]. b < 256"
      using cont_range [OF m1] cont_range [OF m] by simp
    show "leadingOnes ?b0 = Suc (length [?b1, ?b2])" using d by (simp add: leadingOnes_def)
  qed simp_all
  then show ?thesis unfolding e escape_high_bytes [OF hi] .
qed

lemma Decode_four:
  assumes "0x10000 \<le> cp" "cp < 0x110000"
  shows "Decode (escape (map codeUnit (utf8Encode cp)) @ rest) = prepend (utf16Encode cp) (Decode rest)"
proof -
  let ?b0 = "0xF0 + cp div 262144" and ?b1 = "0x80 + cp div 4096 mod 64"
    and ?b2 = "0x80 + cp div 64 mod 64" and ?b3 = "0x80 + cp mod 64"
  have d: "cp div 262144 < 8" using assms by simp
  have m2: "cp div 4096 mod 64 < 64" by simp
  have m1: "cp div 64 mod 64 < 64" by simp
  have m: "cp mod 64 < 64" by simp
  have e: "utf8Encode cp = [?b0, ?b1, ?b2, ?b3]" using assms by (simp add: utf8Encode_def)
  note r = recompose4 [of cp]
  have V: "utf8Decode (?b0 # [?b1, ?b2, ?b3]) = Some cp"
    using utf8Decode_four [OF refl d refl m2 refl m1 refl m] assms unfolding r by simp
  have hi: "\<forall>b \<in> set [?b0, ?b1, ?b2, ?b3]. 128 \<le> b \<and> b < 256"
    using lead_range(3) [OF d] cont_range [OF m2] cont_range [OF m1] cont_range [OF m] by simp
  have "Decode (concat (map percentEncode (?b0 # [?b1, ?b2, ?b3])) @ rest) = prepend (utf16Encode cp) (Decode rest)"
  proof (rule Decode_multibyte [OF _ _ _ _ _ V])
    show "?b0 < 256" using d by simp
    show "\<forall>b \<in> set [?b1, ?b2, ?b3]. b < 256"
      using cont_range [OF m2] cont_range [OF m1] cont_range [OF m] by simp
    show "leadingOnes ?b0 = Suc (length [?b1, ?b2, ?b3])" using d by (simp add: leadingOnes_def)
  qed simp_all
  then show ?thesis unfolding e escape_high_bytes [OF hi] .
qed

lemma Decode_codepoint:
  assumes "cp < 0x110000" "\<not> (0xD800 \<le> cp \<and> cp \<le> 0xDFFF)"
  shows "Decode (escape (map codeUnit (utf8Encode cp)) @ rest) = prepend (utf16Encode cp) (Decode rest)"
proof -
  consider "cp < 0x80" | "0x80 \<le> cp" "cp < 0x800" | "0x800 \<le> cp" "cp < 0x10000"
    | "0x10000 \<le> cp"
    by linarith
  then show ?thesis
  proof cases
    case 1
    then show ?thesis by (rule Decode_ascii)
  next
    case 2
    then show ?thesis by (rule Decode_two)
  next
    case 3
    then show ?thesis using assms(2) by (intro Decode_three)
  next
    case 4
    then show ?thesis using assms(1) by (intro Decode_four)
  qed
qed

lemma utf16Encode_unit: "utf16Encode (unat c) = [c]"
  using unat_lt_65536 [of c] by (simp add: utf16Encode_def codeUnit_unat)

lemma pair_div_mod:
  "y < 1024 \<Longrightarrow> (x * 1024 + y + 65536 - 65536) div 1024 = (x::nat)"
  "y < 1024 \<Longrightarrow> (x * 1024 + y + 65536 - 65536) mod 1024 = (y::nat)"
  by simp_all

lemma utf16Encode_pair:
  assumes "isLeadSurrogate (unat c)" "isTrailSurrogate (unat d)"
  shows "utf16Encode (surrogatePair (unat c) (unat d)) = [c, d]"
proof -
  define x where "x = unat c - 0xD800"
  define y where "y = unat d - 0xDC00"
  have y: "y < 1024" using assms(2) unfolding y_def isTrailSurrogate_def by linarith
  have c: "x + 0xD800 = unat c" using assms(1) unfolding x_def isLeadSurrogate_def by linarith
  have d: "y + 0xDC00 = unat d" using assms(2) unfolding y_def isTrailSurrogate_def by linarith
  have sp: "surrogatePair (unat c) (unat d) = x * 1024 + y + 65536"
    by (simp add: surrogatePair_def x_def y_def)
  have ge: "\<not> x * 1024 + y + 65536 < 65536" by simp
  show ?thesis
    unfolding sp utf16Encode_def using ge pair_div_mod [OF y, of x] c d
    by (simp add: codeUnit_unat)
qed

lemma utf8Bytes_lt: "wellFormed s \<Longrightarrow> \<forall>b \<in> set (utf8Bytes s). b < 256"
proof (induction s rule: wellFormed.induct)
  case 1
  show ?case by simp
next
  case (2 c cs)
  show ?case
  proof (cases "isLeadSurrogate (unat c)")
    case True
    with "2.prems" obtain d ds where cs: "cs = d # ds" and d: "isTrailSurrogate (unat d)"
      and wf: "wellFormed ds"
      by (auto split: list.splits)
    have "\<forall>b \<in> set (utf8Encode (surrogatePair (unat c) (unat d))). b < 256"
      using surrogatePair_bounds [OF True d] by (intro utf8Encode_bytes) simp
    with "2.IH"(1) [OF True cs wf] True cs show ?thesis by auto
  next
    case False
    with "2.prems" have wf: "wellFormed cs" by auto
    have "\<forall>b \<in> set (utf8Encode (unat c)). b < 256"
      using unat_lt_65536 [of c] by (intro utf8Encode_bytes) simp
    with "2.IH"(2) [OF False wf] False show ?thesis by auto
  qed
qed

lemma Decode_escape_utf8Bytes:
  "wellFormed s \<Longrightarrow> Decode (escape (map codeUnit (utf8Bytes s))) = Inr s"
proof (induction s rule: wellFormed.induct)
  case 1
  show ?case by (simp add: escape_def Decode_Nil)
next
  case (2 c cs)
  show ?case
  proof (cases "isLeadSurrogate (unat c)")
    case True
    with "2.prems" obtain d ds where cs: "cs = d # ds" and d: "isTrailSurrogate (unat d)"
      and wf: "wellFormed ds"
      by (auto split: list.splits)
    let ?cp = "surrogatePair (unat c) (unat d)"
    have b: "0x10000 \<le> ?cp \<and> ?cp < 0x110000" using surrogatePair_bounds [OF True d] .
    then have ns: "\<not> (0xD800 \<le> ?cp \<and> ?cp \<le> 0xDFFF)" by simp
    have "Decode (escape (map codeUnit (utf8Encode ?cp)) @ escape (map codeUnit (utf8Bytes ds)))
          = prepend (utf16Encode ?cp) (Decode (escape (map codeUnit (utf8Bytes ds))))"
      using b ns by (intro Decode_codepoint) simp_all
    then show ?thesis
      using True cs "2.IH"(1) [OF True cs wf] utf16Encode_pair [OF True d]
      by (simp add: escape_append)
  next
    case False
    with "2.prems" have nt: "\<not> isTrailSurrogate (unat c)" and wf: "wellFormed cs" by auto
    have ns: "\<not> (0xD800 \<le> unat c \<and> unat c \<le> 0xDFFF)"
      using False nt by (auto simp: isLeadSurrogate_def isTrailSurrogate_def)
    have lt: "unat c < 0x110000" using unat_lt_65536 [of c] by simp
    have "Decode (escape (map codeUnit (utf8Encode (unat c))) @ escape (map codeUnit (utf8Bytes cs)))
          = prepend (utf16Encode (unat c)) (Decode (escape (map codeUnit (utf8Bytes cs))))"
      using lt ns by (rule Decode_codepoint)
    then show ?thesis
      using False "2.IH"(2) [OF False wf] utf16Encode_unit [of c]
      by (simp add: escape_append)
  qed
qed

lemma encode_wellFormed:
  assumes "wellFormed s"
  shows "encode (Some s) = Inr (base64Encode (utf8Bytes s))"
proof -
  from Encode_unescape [OF assms] obtain u where
    u: "Encode uriUnescaped s = Inr u" "unescape u = map codeUnit (utf8Bytes s)"
    by blast
  have "btoa (map codeUnit (utf8Bytes s)) = Inr (base64Encode (utf8Bytes s))"
    using utf8Bytes_lt [OF assms] by (rule btoa_bytes)
  then show ?thesis using u by (simp add: encode_def encodeURIComponent_def)
qed

lemma decode_base64Encode_utf8Bytes:
  assumes "wellFormed s"
  shows "decode (Some (base64Encode (utf8Bytes s))) = Inr s"
proof -
  have "atob (base64Encode (utf8Bytes s)) = Inr (map codeUnit (utf8Bytes s))"
    using utf8Bytes_lt [OF assms] by (rule atob_base64Encode)
  then show ?thesis
    using Decode_escape_utf8Bytes [OF assms]
    by (simp add: decode_def decodeURIComponent_def Let_def)
qed

lemma Encode_not_wellFormed: "\<not> wellFormed s \<Longrightarrow> Encode uriUnescaped s = Inl URIError"
proof (induction s rule: wellFormed.induct)
  case 1
  then show ?case by simp
next
  case (2 c cs)
  show ?case
  proof (cases "isLeadSurrogate (unat c)")
    case True
    then have nu: "\<not> uriUnescaped (unat c)"
      using uriUnescaped_ascii [of "unat c"] by (auto simp: isLeadSurrogate_def)
    show ?thesis
    proof (cases cs)
      case Nil
      then show ?thesis using True nu by simp
    next
      case (Cons d ds)
      show ?thesis
      proof (cases "isTrailSurrogate (unat d)")
        case t: True
        with "2.prems" True Cons have "\<not> wellFormed ds" by simp
        from "2.IH"(1) [OF True Cons this] show ?thesis using True nu Cons t by simp
      next
        case False
        then show ?thesis using True nu Cons by simp
      qed
    qed
  next
    case False
    show ?thesis
    proof (cases "isTrailSurrogate (unat c)")
      case True
      then have nu: "\<not> uriUnescaped (unat c)"
        using uriUnescaped_ascii [of "unat c"] by (auto simp: isTrailSurrogate_def)
      then show ?thesis using False True by simp
    next
      case nt: False
      with "2.prems" False have "\<not> wellFormed cs" by simp
      from "2.IH"(2) [OF False this] show ?thesis using False nt by simp
    qed
  qed
qed

subsection \<open>Evaluation at sample strings\<close>

lemmas codec_eval = encode_def decode_def encodeURIComponent_def decodeURIComponent_def btoa_def
  atob_def escape_def escapeUnit_def uriUnescaped_def escapeUnescaped_def isAlnum_def
  hexDigit_def hexValue_def percentEncode_def isLeadSurrogate_def isTrailSurrogate_def
  surrogatePair_def utf8Encode_def utf16Encode_def base64Char_def base64Value_def
  isAsciiWhitespace_def stripPadding_def leadingOnes_def isContinuation_def codeUnit_def
  prepend_def asc_def Let_def unescape.simps Decode.simps

lemma enc_x: "encode (Some (asc ''x'')) = Inr (asc ''eA=='')"
  by (simp add: codec_eval)
lemma enc_empty: "encode (Some []) = Inr []"
  by (simp add: codec_eval)
lemma dec_hi: "decode (Some (asc ''aGk='')) = Inr (asc ''hi'')"
  by (simp add: codec_eval)
lemma dec_None: "decode None = Inr []"
  by (simp add: codec_eval)
lemma enc_lone: "encode (Some [0xD800]) = Inl URIError"
  by (simp add: codec_eval)

lemma enc_sample: "encode (Some [0xE9, 0x20AC, 0xD83D, 0xDE00]) = Inr (asc ''w6nigqzwn5iA'')"
  by (simp add: codec_eval)

lemma atob_sample: "atob (asc ''6Q=='') = Inr [0xE9]"
  by (simp add: codec_eval)

lemma continuationBytes_numeral:
  "continuationBytes (numeral k) cs = continuationBytes (Suc (pred_numeral k)) cs"
  by (simp only: numeral_eq_Suc)

lemma decodeURIComponent_sample: "decodeURIComponent (escape [0xE9]) = Inl URIError"
  by (simp add: codec_eval continuationBytes_numeral)

lemma unescape_sample: "unescape (escape [0xE9]) = [0xE9]"
  by (simp add: codec_eval)

subsection \<open>The round trip\<close>

text \<open>
  C9, amended. For every string \<open>s\<close> in which every surrogate is paired (the empty string
  and strings with non-ASCII characters included), \<open>encode(s)\<close> returns and
  \<open>decode(encode(s)) = s\<close>. For a string with an unpaired surrogate \<open>encode\<close> throws
  \<open>URIError\<close>. \<open>decode\<close> falls back to \<open>unescape\<close> when \<open>decodeURIComponent\<close> throws, and
  both functions map \<open>null\<close> to what they give for the empty string.
\<close>

theorem encode_decode_roundtrip:
  "(wellFormed s \<longrightarrow>
      (\<exists>e. encode (Some s) = Inr e \<and> decode (Some e) = Inr s) \<and> decode_encode s = Inr s)
   \<and> (\<not> wellFormed s \<longrightarrow> encode (Some s) = Inl URIError)
   \<and> encode None = encode (Some [])
   \<and> decode None = decode (Some [])
   \<and> (atob b = Inr a \<and> decodeURIComponent (escape a) = Inl err \<longrightarrow>
        decode (Some b) = Inr (unescape (escape a)))"
  using encode_wellFormed [of s] decode_base64Encode_utf8Bytes [of s] Encode_not_wellFormed [of s]
  by (simp add: encode_def decode_def decode_encode_def encodeURIComponent_def)

theorem encode_decode_roundtrip_witness:
  "wellFormed [0xE9, 0x20AC, 0xD83D, 0xDE00]
   \<and> encode (Some [0xE9, 0x20AC, 0xD83D, 0xDE00]) = Inr (asc ''w6nigqzwn5iA'')
   \<and> decode (Some (asc ''w6nigqzwn5iA'')) = Inr [0xE9, 0x20AC, 0xD83D, 0xDE00]
   \<and> decode_encode [0xE9, 0x20AC, 0xD83D, 0xDE00] = Inr [0xE9, 0x20AC, 0xD83D, 0xDE00]
   \<and> \<not> wellFormed [0xDC00, 0xD83D]
   \<and> encode (Some [0xDC00, 0xD83D]) = Inl URIError
   \<and> atob (asc ''6Q=='') = Inr [0xE9]
   \<and> decodeURIComponent (escape [0xE9]) = Inl URIError
   \<and> decode (Some (asc ''6Q=='')) = Inr [0xE9]"
proof -
  have wf: "wellFormed [0xE9, 0x20AC, 0xD83D, 0xDE00]"
    by (simp add: isLeadSurrogate_def isTrailSurrogate_def)
  have nwf: "\<not> wellFormed [0xDC00, 0xD83D]"
    by (simp add: isLeadSurrogate_def isTrailSurrogate_def)
  show ?thesis
    using wf nwf enc_sample atob_sample decodeURIComponent_sample unescape_sample
      encode_decode_roundtrip [where s = "[0xE9, 0x20AC, 0xD83D, 0xDE00]"]
      encode_decode_roundtrip [where s = "[0xDC00, 0xD83D]"]
      encode_decode_roundtrip [where b = "asc ''6Q==''" and a = "[0xE9]" and err = URIError]
    by auto
qed

text \<open>
  The claim as stated, for every string, fails at the string that is one lead surrogate:
  \<open>encodeURIComponent\<close> throws, so \<open>decode(encode(s))\<close> has no value.
\<close>

theorem encode_lone_surrogate:
  "encode (Some [0xD800]) = Inl URIError \<and> decode_encode [0xD800] = Inl URIError"
  by (simp add: decode_encode_def enc_lone)

section \<open>The language state\<close>

lemma lang_setLang: "lang (setLang n h) = n"
  by (simp add: setLang_def)

lemma lang_settle: "lang (settle out h) = lang h"
  by (simp add: settle_def Let_def split: fetch_outcome.splits option.splits sum.splits)

lemma lang_handleRunCode: "lang (fst (handleRunCode fetch h)) = lang h"
  by (simp add: handleRunCode_def lang_settle Let_def split: option.splits sum.splits)

lemma lang_selectTab: "lang h \<in> langs \<Longrightarrow> lang (selectTab i h) \<in> langs"
proof (cases "i < length langTabs")
  case True
  then have "i = 0 \<or> i = 1 \<or> i = 2" by (auto simp: langTabs_def)
  then show ?thesis
    by (auto simp: selectTab_def onTabSelect_def lang_setLang langTabs_def langs_def)
next
  case False
  assume "lang h \<in> langs"
  with False show ?thesis by (simp add: selectTab_def)
qed

lemma lang_routerEffect: "lang h \<in> langs \<Longrightarrow> lang (routerEffect r q h) \<in> langs"
  by (auto simp: routerEffect_def lang_setLang langs_def)

lemma lang_home_step: "lang h \<in> langs \<Longrightarrow> lang (home_step e h) \<in> langs"
  by (cases e) (simp_all add: lang_selectTab lang_routerEffect lang_handleRunCode)

lemma lang_home_run: "lang h \<in> langs \<Longrightarrow> lang (home_run evs h) \<in> langs"
  by (induction evs arbitrary: h) (simp_all add: lang_home_step)

lemma sent_handleRunCode:
  assumes "editorRef h = Some src" "inputEditorRef h = Some inp" "handleRunCode fetch h = (h', None)"
  shows "\<exists>req. sent h' = sent h @ [req] \<and> language_id req = language_id_of (lang h)
           \<and> encode (Some src) = Inr (source_code req) \<and> encode (Some inp) = Inr (stdin req)
           \<and> h' = settle (fetch req) (h\<lparr>isRunning := True, result := None, sent := sent h @ [req]\<rparr>)"
proof -
  from assms obtain source input where
    e: "encode (Some src) = Inr source" "encode (Some inp) = Inr input"
    by (auto simp: handleRunCode_def Let_def split: sum.splits)
  let ?req = "\<lparr>source_code = source, language_id = language_id_of (lang h),
                 stdin = input, compiler_options = [], command_line_arguments = [],
                 redirect_stderr_to_stdout = False\<rparr>"
  have "h' = settle (fetch ?req) (h\<lparr>isRunning := True, result := None, sent := sent h @ [?req]\<rparr>)"
    using assms e by (simp add: handleRunCode_def Let_def)
  moreover have "sent (settle out g) = sent g" for out and g :: "'a Home"
    by (simp add: settle_def Let_def split: fetch_outcome.splits option.splits sum.splits)
  ultimately show ?thesis using e by (intro exI [of _ ?req]) simp
qed

text \<open>
  C7. The language state starts as \<open>cpp\<close> and after any sequence of events of the page it
  is one of \<open>cpp\<close>, \<open>java\<close>, \<open>py\<close>: the tabs offer exactly these three values, the effect
  on the router leaves the state alone unless the router is ready and the \<open>lang\<close> query
  parameter is one of the three strings, in which case it becomes the state. The
  \<open>language_id\<close> of the request sent is 54 for \<open>cpp\<close>, 62 for \<open>java\<close> and 71 for \<open>py\<close>.
\<close>

theorem language_state:
  "lang (initial_Home url :: 'x Home) = asc ''cpp''
   \<and> lang (home_run evs (initial_Home url :: 'x Home)) \<in> {asc ''cpp'', asc ''java'', asc ''py''}
   \<and> map tab_value langTabs = [asc ''cpp'', asc ''java'', asc ''py'']
   \<and> (\<not> (ready \<and> (q = QString (asc ''cpp'') \<or> q = QString (asc ''java'') \<or> q = QString (asc ''py'')))
        \<longrightarrow> routerEffect ready q h = h)
   \<and> (l \<in> {asc ''cpp'', asc ''java'', asc ''py''} \<longrightarrow> lang (routerEffect True (QString l) h) = l)
   \<and> language_id_of (asc ''cpp'') = Some 54
   \<and> language_id_of (asc ''java'') = Some 62
   \<and> language_id_of (asc ''py'') = Some 71
   \<and> (editorRef h = Some src \<and> inputEditorRef h = Some inp \<and> handleRunCode fetch h = (h', None)
        \<longrightarrow> (\<exists>req. sent h' = sent h @ [req] \<and> language_id req = language_id_of (lang h)))"
proof -
  have i: "lang (initial_Home url :: 'x Home) = asc ''cpp''"
    by (simp add: initial_Home_def)
  then have "lang (initial_Home url :: 'x Home) \<in> langs" by (simp add: langs_def)
  then have r: "lang (home_run evs (initial_Home url :: 'x Home)) \<in> langs"
    by (rule lang_home_run)
  have s: "editorRef h = Some src \<and> inputEditorRef h = Some inp \<and> handleRunCode fetch h = (h', None)
        \<longrightarrow> (\<exists>req. sent h' = sent h @ [req] \<and> language_id req = language_id_of (lang h))"
    using sent_handleRunCode [of h src inp fetch h'] by blast
  have ids: "language_id_of (asc ''cpp'') = Some 54 \<and> language_id_of (asc ''java'') = Some 62
      \<and> language_id_of (asc ''py'') = Some 71"
    by (simp add: language_id_of_def asc_def)
  have q: "\<not> (ready \<and> (q = QString (asc ''cpp'') \<or> q = QString (asc ''java'') \<or> q = QString (asc ''py'')))
        \<longrightarrow> routerEffect ready q h = h"
    by (simp add: routerEffect_def)
  have q2: "l \<in> {asc ''cpp'', asc ''java'', asc ''py''} \<longrightarrow> lang (routerEffect True (QString l) h) = l"
    by (auto simp: routerEffect_def lang_setLang)
  have t: "map tab_value langTabs = [asc ''cpp'', asc ''java'', asc ''py'']"
    by (simp add: langTabs_def)
  from i r s ids q q2 t show ?thesis unfolding langs_def by blast
qed

lemma handleRunCode_sample:
  "handleRunCode sample_fetch sample_Home =
     (sample_Home\<lparr>isRunning := False,
        result := Some (sample_judge\<lparr>stdout := Some (asc ''hi''), stderr := Some [],
                          compile_output := Some [], message := Some []\<rparr>),
        sent := [sample_request]\<rparr>, None)"
  using dec_None
  by (simp add: handleRunCode_def settle_def decodeFields_def sample_Home_def sample_fetch_def
      sample_judge_def sample_request_def initial_Home_def enc_x enc_empty dec_hi truthy_def
      language_id_of_def Let_def)

theorem language_state_witness:
  "lang (home_run [TabSelected 2, RouterEffect True (QString (asc ''rust'')), TabSelected 7]
      (initial_Home [] :: unit Home)) \<in> {asc ''cpp'', asc ''java'', asc ''py''}
   \<and> routerEffect True (QString (asc ''rust'')) sample_Home = sample_Home
   \<and> asc ''py'' \<in> {asc ''cpp'', asc ''java'', asc ''py''}
   \<and> lang (routerEffect True (QString (asc ''py'')) sample_Home) = asc ''py''
   \<and> editorRef sample_Home = Some (asc ''x'') \<and> inputEditorRef sample_Home = Some []
   \<and> snd (handleRunCode sample_fetch sample_Home) = None
   \<and> (\<exists>req. sent (fst (handleRunCode sample_fetch sample_Home)) = sent sample_Home @ [req]
         \<and> language_id req = Some 54)"
proof -
  note T = language_state [where evs = "[TabSelected 2, RouterEffect True (QString (asc ''rust'')), TabSelected 7]"
      and url = "[]" and ready = True and q = "QString (asc ''rust'')" and h = sample_Home
      and l = "asc ''py''" and src = "asc ''x''" and inp = "[]" and fetch = sample_fetch
      and h' = "fst (handleRunCode sample_fetch sample_Home)"]
  have h1: "\<not> (True \<and> (QString (asc ''rust'') = QString (asc ''cpp'')
      \<or> QString (asc ''rust'') = QString (asc ''java'') \<or> QString (asc ''rust'') = QString (asc ''py'')))"
    by (simp add: asc_def)
  have h2: "asc ''py'' \<in> {asc ''cpp'', asc ''java'', asc ''py''}"
    by simp
  have h3: "editorRef sample_Home = Some (asc ''x'')" "inputEditorRef sample_Home = Some []"
    by (simp_all add: sample_Home_def initial_Home_def)
  have h4: "handleRunCode sample_fetch sample_Home = (fst (handleRunCode sample_fetch sample_Home), None)"
    by (simp add: handleRunCode_sample)
  have id: "language_id_of (lang sample_Home) = Some 54"
    by (simp add: sample_Home_def initial_Home_def language_id_of_def)
  from T h1 h2 h3 h4
  have "lang (home_run [TabSelected 2, RouterEffect True (QString (asc ''rust'')), TabSelected 7]
      (initial_Home [] :: unit Home)) \<in> {asc ''cpp'', asc ''java'', asc ''py''}
    \<and> routerEffect True (QString (asc ''rust'')) sample_Home = sample_Home
    \<and> lang (routerEffect True (QString (asc ''py'')) sample_Home) = asc ''py''
    \<and> (\<exists>req. sent (fst (handleRunCode sample_fetch sample_Home)) = sent sample_Home @ [req]
         \<and> language_id req = language_id_of (lang sample_Home))"
    by blast
  then show ?thesis
    using h2 h3 h4 unfolding id by (simp add: handleRunCode_sample)
qed

section \<open>The input pane\<close>

text \<open>
  C8. The input pane is the editor component with language \<open>plaintext\<close>, the empty string
  as default content and the \<open>input\<close> child of the file's reference. Its session is opened
  by the same effect as the sessions of the three code panes (whose identifiers are
  \<open>fileId + '.editor-' + lang\<close>), with the identifier \<open>fileId + '.input'\<close>; initialising
  its document inserts the empty string, which leaves the text as it is.
\<close>

theorem input_pane:
  "language (inputPaneProps fr) = Some (asc ''plaintext'')
   \<and> defaultValue (inputPaneProps fr) = Some []
   \<and> firebaseRef (inputPaneProps (Some r)) = Some (child r (asc ''input''))
   \<and> key (child r (asc ''input'')) = Some (asc ''input'')
   \<and> (editor w = Some ed \<and> userRef w = Some uref \<and> fileId w = Some fid \<and> fid \<noteq> [] \<longrightarrow>
        (\<exists>s. session (useEffect cf proto (inputPaneProps (Some r)) w) = Some s
           \<and> documentId s = fid @ asc ''.input''
           \<and> documentId s = mkDocumentId fid (child r (asc ''input''))))
   \<and> (editor w = Some ed \<and> userRef w = Some uref \<and> fileId w = Some fid \<and> fid \<noteq> []
        \<and> l \<in> {asc ''cpp'', asc ''java'', asc ''py''} \<longrightarrow>
        (\<exists>s. session (useEffect cf proto (codePaneProps dc (Some r) l) w) = Some s
           \<and> documentId s = fid @ asc ''.editor-'' @ l))
   \<and> monacoText (fst (sync_document (defaultValue (inputPaneProps fr)) True s)) = monacoText s"
proof -
  have k: "key (child r k) = Some k" for k
    by (simp add: key_def child_def)
  have a: "firebaseRef (inputPaneProps (Some r)) = Some (child r (asc ''input''))"
    by (simp add: inputPaneProps_def firebaseRefs_def asc_def)
  have b: "editor w = Some ed \<and> userRef w = Some uref \<and> fileId w = Some fid \<and> fid \<noteq> [] \<longrightarrow>
        (\<exists>s. session (useEffect cf proto (inputPaneProps (Some r)) w) = Some s
           \<and> documentId s = fid @ asc ''.input''
           \<and> documentId s = mkDocumentId fid (child r (asc ''input'')))"
    using a by (auto simp: useEffect_def mkDocumentId_def k tpl_def Let_def asc_def)
  have c: "firebaseRef (codePaneProps dc (Some r) l) = Some (child r (asc ''editor-'' @ l))"
    if "l \<in> {asc ''cpp'', asc ''java'', asc ''py''}"
    using that by (auto simp: codePaneProps_def firebaseRefs_def asc_def)
  have d: "editor w = Some ed \<and> userRef w = Some uref \<and> fileId w = Some fid \<and> fid \<noteq> []
        \<and> l \<in> {asc ''cpp'', asc ''java'', asc ''py''} \<longrightarrow>
        (\<exists>s. session (useEffect cf proto (codePaneProps dc (Some r) l) w) = Some s
           \<and> documentId s = fid @ asc ''.editor-'' @ l)"
  proof (intro impI)
    assume h: "editor w = Some ed \<and> userRef w = Some uref \<and> fileId w = Some fid \<and> fid \<noteq> []
        \<and> l \<in> {asc ''cpp'', asc ''java'', asc ''py''}"
    then have "firebaseRef (codePaneProps dc (Some r) l) = Some (child r (asc ''editor-'' @ l))"
      using c by blast
    with h show "\<exists>s. session (useEffect cf proto (codePaneProps dc (Some r) l) w) = Some s
           \<and> documentId s = fid @ asc ''.editor-'' @ l"
      by (simp add: useEffect_def mkDocumentId_def k tpl_def Let_def asc_def)
  qed
  have e: "monacoText (fst (sync_document (defaultValue (inputPaneProps fr)) True s)) = monacoText s"
    by (simp add: sync_document_def inputPaneProps_def)
  have f: "language (inputPaneProps fr) = Some (asc ''plaintext'')"
    "defaultValue (inputPaneProps fr) = Some []"
    by (simp_all add: inputPaneProps_def)
  from a b d e f k [of "asc ''input''"] show ?thesis by blast
qed

theorem input_pane_witness:
  "editor sample_world = Some () \<and> fileId sample_world = Some (asc ''-Mabc'')
   \<and> (\<exists>s. session (useEffect sample_color (asc ''https:'')
              (inputPaneProps (Some \<lparr>segments = [asc ''-Mabc'']\<rparr>)) sample_world) = Some s
         \<and> documentId s = asc ''-Mabc.input'')
   \<and> asc ''java'' \<in> {asc ''cpp'', asc ''java'', asc ''py''}
   \<and> (\<exists>s. session (useEffect sample_color (asc ''https:'')
              (codePaneProps Map.empty (Some \<lparr>segments = [asc ''-Mabc'']\<rparr>) (asc ''java''))
              sample_world) = Some s
         \<and> documentId s = asc ''-Mabc.editor-java'')"
proof -
  note T = input_pane [where w = sample_world and ed = "()"
      and uref = "\<lparr>segments = [asc ''users'', asc ''u1'']\<rparr>" and fid = "asc ''-Mabc''"
      and cf = sample_color and proto = "asc ''https:''" and r = "\<lparr>segments = [asc ''-Mabc'']\<rparr>"
      and l = "asc ''java''" and dc = Map.empty and fr = None and s = sample_session]
  have h: "editor sample_world = Some ()"
    "userRef sample_world = Some \<lparr>segments = [asc ''users'', asc ''u1'']\<rparr>"
    "fileId sample_world = Some (asc ''-Mabc'')" "asc ''-Mabc'' \<noteq> []"
    "asc ''java'' \<in> {asc ''cpp'', asc ''java'', asc ''py''}"
    by (simp_all add: sample_world_def initial_world_def asc_def)
  have e: "asc ''-Mabc'' @ asc ''.input'' = asc ''-Mabc.input''"
    "asc ''-Mabc'' @ asc ''.editor-'' @ asc ''java'' = asc ''-Mabc.editor-java''"
    by (simp_all add: asc_def)
  from T h show ?thesis unfolding e by blast
qed

section \<open>Running the code\<close>












end
